theory Spec2Isabelle
  imports Complex_Main
begin

section \<open>Numbers\<close>

text \<open>
  The program is TypeScript; its \<^verbatim>\<open>number\<close> values are modelled as exact reals
  (no rounding error, no NaN), pixel bytes and list lengths as naturals and
  \<^verbatim>\<open>Date.now()\<close> as an integer count of milliseconds.
  \<^verbatim>\<open>Math.round\<close> rounds to the nearest integer, halves upwards.
\<close>

definition Math_round :: "real \<Rightarrow> int" where
  "Math_round v = \<lfloor>v + 1 / 2\<rfloor>"

section \<open>Live quality sampling\<close>

text \<open>\<^verbatim>\<open>type Pose = 'front' | 'left' | 'right' | 'unknown'\<close>\<close>

datatype Pose = Front | Left | Right | Unknown

text \<open>
  The value of \<^verbatim>\<open>latestFaceRef.current\<close>, written by the per-frame detection loop.
\<close>

record Face =
  found :: bool
  coverage :: real
  noseRatio :: real

text \<open>
  The pose expression. It occurs twice in the source with the same text, in the quality
  sampler and in \<^verbatim>\<open>captureFromCamera\<close>:
  \<^verbatim>\<open>face.found && face.coverage > 0
    ? face.noseRatio < 0.46 ? 'left' : face.noseRatio > 0.54 ? 'right' : 'front'
    : 'unknown'\<close>
\<close>

definition facePose :: "Face \<Rightarrow> Pose" where
  "facePose face =
     (if found face \<and> coverage face > 0
      then (if noseRatio face < 0.46 then Left
            else if noseRatio face > 0.54 then Right
            else Front)
      else Unknown)"

text \<open>
  The five warning messages pushed by the sampler, in the order of the source:
  \<^item> \<open>LowLight\<close>: "Lighting is low - move to brighter, even light."
  \<^item> \<open>StrongLight\<close>: "Lighting is very strong - avoid overexposure."
  \<^item> \<open>Blurry\<close>: "Hold still - image looks soft/blurry."
  \<^item> \<open>NoFace\<close>: "No face detected - keep full face in frame."
  \<^item> \<open>FaceTooSmall\<close>: "Move closer - face is too small in frame."
\<close>

datatype Warning = LowLight | StrongLight | Blurry | NoFace | FaceTooSmall

record QualitySample =
  score :: real
  brightness :: real
  sharpness :: real
  faceCoverage :: real
  pose :: Pose
  warnings :: "Warning list"

text \<open>
  The tail of the sampler's interval callback, from the read of \<^verbatim>\<open>latestFaceRef\<close> to
  \<^verbatim>\<open>setScanQuality\<close>. Its inputs are the brightness and sharpness that the callback has
  computed from the downsampled frame (both already clamped to the unit interval there)
  and the latest face observation.
\<close>

definition pushIf :: "bool \<Rightarrow> Warning \<Rightarrow> Warning list \<Rightarrow> Warning list" where
  "pushIf c w ws = (if c then ws @ [w] else ws)"

definition sampleQuality :: "real \<Rightarrow> real \<Rightarrow> Face \<Rightarrow> QualitySample" where
  "sampleQuality b s face =
     (let fc = coverage face;
          p = facePose face;
          brightCentered = max 0 (min 1 (1 - \<bar>b - 0.55\<bar> / 0.55));
          sizeScore = min 1 (fc / 0.2);
          sc = (if found face then 0.45 * s + 0.35 * brightCentered + 0.2 * sizeScore else 0);
          w0 = [];
          w1 = pushIf (b < 0.25) LowLight w0;
          w2 = pushIf (b > 0.88) StrongLight w1;
          w3 = pushIf (s < 0.25) Blurry w2;
          w4 = pushIf (\<not> found face) NoFace w3;
          w5 = pushIf (found face \<and> fc < 0.08) FaceTooSmall w4
      in \<lparr> score = sc, brightness = b, sharpness = s, faceCoverage = fc,
           pose = p, warnings = w5 \<rparr>)"

section \<open>Capture items\<close>

text \<open>
  \<^verbatim>\<open>type CaptureItem = { id: string; blob: Blob; url: string; pose: Pose }\<close>.
  A blob is modelled by its bytes.
\<close>

type_synonym Blob = "nat list"

record CaptureItem =
  item_id :: string
  item_blob :: Blob
  item_url :: string
  item_pose :: Pose

text \<open>
  The component state that the capture code reads and writes: the React state variables
  \<^verbatim>\<open>autoCapture\<close>, \<^verbatim>\<open>cameraOn\<close>, \<^verbatim>\<open>step\<close>, \<^verbatim>\<open>captures\<close>, \<^verbatim>\<open>scanQuality\<close>, \<^verbatim>\<open>autoCountdown\<close>
  (\<open>None\<close> is \<^verbatim>\<open>null\<close>) and the refs \<^verbatim>\<open>latestFaceRef\<close>, \<^verbatim>\<open>lastAutoCaptureAtRef\<close>,
  \<^verbatim>\<open>lastCapturedPoseRef\<close>.
\<close>

record AppState =
  autoCapture :: bool
  cameraOn :: bool
  step :: int
  captures :: "CaptureItem list"
  scanQuality :: QualitySample
  autoCountdown :: "int option"
  latestFace :: Face
  lastAutoCaptureAt :: int
  lastCapturedPose :: Pose

text \<open>The values of \<^verbatim>\<open>useState\<close> and \<^verbatim>\<open>useRef\<close> at mount.\<close>

definition initialState :: AppState where
  "initialState =
     \<lparr> autoCapture = False, cameraOn = False, step = 0, captures = [],
       scanQuality = \<lparr> score = 0, brightness = 0, sharpness = 0, faceCoverage = 0,
                       pose = Unknown, warnings = [] \<rparr>,
       autoCountdown = None,
       latestFace = \<lparr> found = False, coverage = 0, noseRatio = 0.5 \<rparr>,
       lastAutoCaptureAt = 0, lastCapturedPose = Unknown \<rparr>"

text \<open>
  What the browser hands to one call of \<^verbatim>\<open>captureFromCamera\<close>: whether
  \<^verbatim>\<open>videoRef.current\<close> and the canvas 2D context exist, the result of \<^verbatim>\<open>canvas.toBlob\<close>
  (\<open>None\<close> is \<^verbatim>\<open>null\<close>), the string \<^verbatim>\<open>makeId()\<close> returns and the object URL.
\<close>

record CaptureEnv =
  video :: bool
  context2d :: bool
  toBlob :: "Blob option"
  newId :: string
  newUrl :: string

text \<open>
  \<^verbatim>\<open>captureFromCamera\<close>. The function is \<^verbatim>\<open>async\<close>: the pose is read before the
  \<^verbatim>\<open>await\<close>, the two writes happen after it. The model runs the continuation in the same
  step. There is no test on the number of captures.
\<close>

definition captureFromCamera :: "CaptureEnv \<Rightarrow> AppState \<Rightarrow> AppState" where
  "captureFromCamera env s =
     (if \<not> video env then s
      else let p = facePose (latestFace s) in
        if \<not> context2d env then s
        else case toBlob env of
               None \<Rightarrow> s
             | Some b \<Rightarrow>
                 s\<lparr> lastCapturedPose := p,
                    captures := captures s @
                      [\<lparr> item_id = newId env, item_blob = b, item_url = newUrl env,
                         item_pose = p \<rparr>] \<rparr>)"

text \<open>
  \<^verbatim>\<open>addFiles(files: FileList | null)\<close>. Each file comes with the id and the object URL
  that \<^verbatim>\<open>makeId()\<close> and \<^verbatim>\<open>URL.createObjectURL\<close> produce for it.
\<close>

record UploadFile =
  file_blob :: Blob
  file_id :: string
  file_url :: string

definition addFiles :: "UploadFile list option \<Rightarrow> AppState \<Rightarrow> AppState" where
  "addFiles files s =
     (case files of
        None \<Rightarrow> s
      | Some fs \<Rightarrow>
          s\<lparr> captures := captures s @
                map (\<lambda>f. \<lparr> item_id = file_id f, item_blob = file_blob f,
                            item_url = file_url f, item_pose = Unknown \<rparr>) fs \<rparr>)"

section \<open>Auto-capture state machine\<close>

text \<open>
  \<^verbatim>\<open>const good = scanQuality.score >= 0.78 && scanQuality.warnings.length === 0\<close>,
  computed with the same text in both effects.
\<close>

definition good :: "QualitySample \<Rightarrow> bool" where
  "good q = (score q \<ge> 0.78 \<and> length (warnings q) = 0)"

text \<open>
  The effect that starts a countdown (the entry gate). \<open>now\<close> is the value of
  \<^verbatim>\<open>Date.now()\<close>, read in the last test only.
\<close>

definition entryGate :: "int \<Rightarrow> AppState \<Rightarrow> AppState" where
  "entryGate now s =
     (if \<not> autoCapture s \<or> \<not> cameraOn s \<or> step s \<noteq> 1 then s\<lparr> autoCountdown := None \<rparr>
      else if length (captures s) \<ge> 3 then s\<lparr> autoCountdown := None \<rparr>
      else if \<not> good (scanQuality s) then s\<lparr> autoCountdown := None \<rparr>
      else if pose (scanQuality s) \<noteq> Unknown \<and> pose (scanQuality s) = lastCapturedPose s
        then s\<lparr> autoCountdown := None \<rparr>
      else if autoCountdown s = None \<and> now - lastAutoCaptureAt s > 2500
        then s\<lparr> autoCountdown := Some 3 \<rparr>
      else s)"

text \<open>
  The one-second timer of the countdown effect: it is armed only while the countdown is a
  positive number, and its callback is \<^verbatim>\<open>setAutoCountdown((v) => (v === null ? null : v - 1))\<close>.
\<close>

definition countdownTimer :: "AppState \<Rightarrow> AppState" where
  "countdownTimer s =
     (case autoCountdown s of
        None \<Rightarrow> s
      | Some v \<Rightarrow> if v \<le> 0 then s else s\<lparr> autoCountdown := Some (v - 1) \<rparr>)"

text \<open>
  The effect that runs when the countdown is \<open>0\<close> (the zero effect). It tests the
  switches, the budget, \<open>good\<close> and the pose; it does not read the clock before it stamps
  \<^verbatim>\<open>lastAutoCaptureAtRef\<close>.
\<close>

definition zeroEffect :: "int \<Rightarrow> CaptureEnv \<Rightarrow> AppState \<Rightarrow> AppState" where
  "zeroEffect now env s =
     (if autoCountdown s \<noteq> Some 0 then s
      else if \<not> autoCapture s \<or> \<not> cameraOn s \<or> step s \<noteq> 1 \<or> length (captures s) \<ge> 3
        then s\<lparr> autoCountdown := None \<rparr>
      else if \<not> good (scanQuality s) then s\<lparr> autoCountdown := None \<rparr>
      else if pose (scanQuality s) \<noteq> Unknown \<and> pose (scanQuality s) = lastCapturedPose s
        then s\<lparr> autoCountdown := None \<rparr>
      else captureFromCamera env (s\<lparr> lastAutoCaptureAt := now, autoCountdown := None \<rparr>))"

text \<open>
  The events that drive the machine. React decides when an effect runs; the model lets
  the effects run in any order and any number of times, each on the state of that moment.
\<close>

datatype Event =
    Sample QualitySample
  | FaceSeen Face
  | SetAutoCapture bool
  | SetCameraOn bool
  | SetStep int
  | EntryGate int
  | TimerFired
  | CountdownZero int CaptureEnv
  | ManualCapture CaptureEnv
  | Upload "UploadFile list option"

fun dispatch :: "Event \<Rightarrow> AppState \<Rightarrow> AppState" where
  "dispatch (Sample q) s = s\<lparr> scanQuality := q \<rparr>"
| "dispatch (FaceSeen f) s = s\<lparr> latestFace := f \<rparr>"
| "dispatch (SetAutoCapture b) s = s\<lparr> autoCapture := b \<rparr>"
| "dispatch (SetCameraOn b) s = s\<lparr> cameraOn := b \<rparr>"
| "dispatch (SetStep n) s = s\<lparr> step := n \<rparr>"
| "dispatch (EntryGate now) s = entryGate now s"
| "dispatch TimerFired s = countdownTimer s"
| "dispatch (CountdownZero now env) s = zeroEffect now env s"
| "dispatch (ManualCapture env) s = captureFromCamera env s"
| "dispatch (Upload files) s = addFiles files s"

definition run :: "Event list \<Rightarrow> AppState \<Rightarrow> AppState" where
  "run evs s = fold dispatch evs s"

text \<open>
  Sequences of events during which \<^verbatim>\<open>lastCapturedPoseRef\<close> stays what it is and every
  quality sample reports the pose \<open>p\<close>: no manual capture, no upload.
\<close>

fun samePose :: "Pose \<Rightarrow> Event \<Rightarrow> bool" where
  "samePose p (Sample q) = (pose q = p)"
| "samePose p (ManualCapture env) = False"
| "samePose p (Upload files) = False"
| "samePose p ev = True"

text \<open>
  Events that happen no later than 2500 ms after the time \<open>t0\<close>: the clock read by the
  entry gate shows at most \<open>t0 + 2500\<close>.
\<close>

fun withinCooldown :: "int \<Rightarrow> Event \<Rightarrow> bool" where
  "withinCooldown t0 (EntryGate now) = (now - t0 \<le> 2500)"
| "withinCooldown t0 ev = True"

text \<open>
  Concrete values for evaluation: the sample of the specification's end-to-end scenario
  seen from the front, a browser in which a capture succeeds, one stored capture, and a
  state that is ready to capture with the countdown at zero.
\<close>

definition frontFace :: Face where
  "frontFace = \<lparr> found = True, coverage = 0.25, noseRatio = 0.5 \<rparr>"

definition goodSample :: QualitySample where
  "goodSample = sampleQuality 0.55 0.9 frontFace"

definition okEnv :: CaptureEnv where
  "okEnv = \<lparr> video = True, context2d = True, toBlob = Some [255, 216, 255],
             newId = ''8c3f1a'', newUrl = ''blob:1'' \<rparr>"

definition someItem :: CaptureItem where
  "someItem = \<lparr> item_id = ''a1'', item_blob = [255, 216], item_url = ''blob:0'',
                item_pose = Left \<rparr>"

definition readyState :: AppState where
  "readyState =
     initialState\<lparr> autoCapture := True, cameraOn := True, step := 1,
                   scanQuality := goodSample, latestFace := frontFace,
                   autoCountdown := Some 0, lastAutoCaptureAt := 10000 \<rparr>"

section \<open>Concern map: callout layout\<close>

record Point =
  px :: real
  py :: real

text \<open>
  One entry of \<^verbatim>\<open>calloutItems\<close>: \<^verbatim>\<open>{ id, anchor, text, rgb, w }\<close>.
\<close>

record CalloutItem =
  callout_id :: string
  anchor :: Point
  callout_text :: string
  rgb :: string
  weight :: real

text \<open>
  What \<^verbatim>\<open>placeColumn\<close> reads from its surroundings: the canvas size, the horizontal
  extent \<^verbatim>\<open>minX\<close>, \<^verbatim>\<open>maxX\<close> and the width \<^verbatim>\<open>fw\<close> of the face box, and the text
  width that \<^verbatim>\<open>ctx.measureText\<close> returns.
\<close>

record LayoutCtx =
  canvasWidth :: real
  canvasHeight :: real
  minX :: real
  maxX :: real
  fw :: real
  measureText :: "string \<Rightarrow> real"

abbreviation pad :: real where "pad \<equiv> 10"
abbreviation boxH :: real where "boxH \<equiv> 28"
abbreviation gap :: real where "gap \<equiv> 8"
abbreviation margin :: real where "margin \<equiv> 10"

definition maxBoxW :: "LayoutCtx \<Rightarrow> real" where
  "maxBoxW L = min 280 (max 160 (fw L * 0.44))"

definition colOffset :: "LayoutCtx \<Rightarrow> real" where
  "colOffset L = max 14 (fw L * 0.06)"

datatype Side = SideLeft | SideRight

text \<open>
  \<^verbatim>\<open>canvasEl.height - boxH - margin\<close>, the lowest position of a box that keeps the
  margin to the bottom edge; the loop body uses this expression three times.
\<close>

definition lowest :: "LayoutCtx \<Rightarrow> real" where
  "lowest L = canvasHeight L - boxH - margin"

text \<open>The rectangle handed to \<^verbatim>\<open>drawCallout\<close>: \<^verbatim>\<open>bx\<close>, \<^verbatim>\<open>by\<close>, \<^verbatim>\<open>bw\<close>; its height is \<open>boxH\<close>.\<close>

record Box =
  box_x :: real
  box_y :: real
  box_w :: real

text \<open>
  The body of the loop of \<^verbatim>\<open>placeColumn\<close> for one item. \<open>lastY\<close> is \<open>None\<close> for the
  initial \<^verbatim>\<open>-Infinity\<close>, for which the test \<^verbatim>\<open>by <= lastY + boxH + gap\<close> is false.
\<close>

definition placeOne :: "LayoutCtx \<Rightarrow> Side \<Rightarrow> real option \<Rightarrow> CalloutItem \<Rightarrow> Box" where
  "placeOne L side lastY c =
     (let tw = measureText L (callout_text c);
          bw = max 140 (min (maxBoxW L) (tw + 22 + pad));
          bxRaw = (if side = SideLeft then minX L - bw - colOffset L else maxX L + colOffset L);
          bx = max margin (min (canvasWidth L - bw - margin) bxRaw);
          by0 = py (anchor c) - boxH / 2;
          by1 = max margin (min (lowest L) by0);
          by2 = (case lastY of
                   None \<Rightarrow> by1
                 | Some l \<Rightarrow> if by1 \<le> l + boxH + gap then l + boxH + gap else by1);
          by3 = (if by2 > lowest L then lowest L else by2)
      in \<lparr> box_x = bx, box_y = by3, box_w = bw \<rparr>)"

fun placeFrom :: "LayoutCtx \<Rightarrow> Side \<Rightarrow> real option \<Rightarrow> CalloutItem list \<Rightarrow> Box list" where
  "placeFrom L side lastY [] = []"
| "placeFrom L side lastY (c # cs) =
     (let b = placeOne L side lastY c
      in b # placeFrom L side (Some (box_y b)) cs)"

text \<open>\<^verbatim>\<open>placeColumn(items, side)\<close>: the boxes it draws, in order.\<close>

definition placeColumn :: "LayoutCtx \<Rightarrow> Side \<Rightarrow> CalloutItem list \<Rightarrow> Box list" where
  "placeColumn L side items = placeFrom L side None items"

text \<open>
  \<^verbatim>\<open>left.sort((a, b) => a.anchor.y - b.anchor.y)\<close>: a stable sort by the anchor's
  vertical position, followed by the placement of the column.
\<close>

definition sortByAnchorY :: "CalloutItem list \<Rightarrow> CalloutItem list" where
  "sortByAnchorY items = sort_key (\<lambda>c. py (anchor c)) items"

definition layoutColumn :: "LayoutCtx \<Rightarrow> Side \<Rightarrow> CalloutItem list \<Rightarrow> Box list" where
  "layoutColumn L side items = placeColumn L side (sortByAnchorY items)"

text \<open>
  Two boxes overlap when their vertical intervals \<open>[by, by + boxH]\<close> meet.
\<close>

definition overlaps :: "Box \<Rightarrow> Box \<Rightarrow> bool" where
  "overlaps a b = (box_y a \<le> box_y b + boxH \<and> box_y b \<le> box_y a + boxH)"

text \<open>
  Concrete values for evaluation: a 600 by 400 canvas with a face box from 200 to 400,
  a text measure of 7 pixels per character, and callouts anchored at a given height.
\<close>

definition demoCtx :: LayoutCtx where
  "demoCtx = \<lparr> canvasWidth = 600, canvasHeight = 400, minX = 200, maxX = 400, fw = 200,
               measureText = (\<lambda>t. 7 * real (length t)) \<rparr>"

definition calloutAt :: "string \<Rightarrow> real \<Rightarrow> CalloutItem" where
  "calloutAt name y =
     \<lparr> callout_id = name, anchor = \<lparr> px = 250, py = y \<rparr>, callout_text = name,
       rgb = ''244, 63, 94'', weight = 0.5 \<rparr>"

section \<open>Concern map: heatmap anchors\<close>

text \<open>
  The RGBA bytes of the downsampled heatmap, \<^verbatim>\<open>img.data\<close>, are a list of naturals below
  256, four per pixel, \<open>4 * tw * th\<close> in all. The working width is the constant
  \<^verbatim>\<open>const tw = 160\<close>.
\<close>

abbreviation tw :: nat where "tw \<equiv> 160"

text \<open>
  \<^verbatim>\<open>let maxA = 0; for (let i = 3; i < data.length; i += 4) { if (data[i] > maxA) maxA = data[i] }\<close>:
  the loop visits the alpha byte of every pixel.
\<close>

definition maxAlpha :: "nat list \<Rightarrow> nat" where
  "maxAlpha data =
     fold (\<lambda>i maxA. if data ! i > maxA then data ! i else maxA)
          (map (\<lambda>k. 4 * k + 3) [0..<length data div 4]) 0"

text \<open>
  The values of a loop variable that starts at \<open>0\<close>, advances by \<^verbatim>\<open>step = 2\<close> and stays
  below \<open>n\<close>; and the pixels the two nested loops of \<^verbatim>\<open>centroid\<close> visit, rows outside.
\<close>

definition stepped :: "nat \<Rightarrow> nat list" where
  "stepped n = map (\<lambda>k. 2 * k) [0..<(n + 1) div 2]"

definition sampleGrid :: "nat \<Rightarrow> (nat \<times> nat) list" where
  "sampleGrid th = concat (map (\<lambda>y. map (\<lambda>x. (x, y)) (stepped tw)) (stepped th))"

text \<open>\<^verbatim>\<open>data[(y * tw + x) * 4 + 3]\<close>\<close>

definition alphaAt :: "nat list \<Rightarrow> nat \<times> nat \<Rightarrow> nat" where
  "alphaAt data p = data ! ((snd p * tw + fst p) * 4 + 3)"

text \<open>
  The body of the inner loop, on the accumulators \<^verbatim>\<open>sum\<close> (here \<open>sumA\<close>), \<^verbatim>\<open>sumX\<close>,
  \<^verbatim>\<open>sumY\<close>, and the local function \<^verbatim>\<open>centroid(minA)\<close>.
\<close>

definition centroidStep ::
  "nat list \<Rightarrow> nat \<Rightarrow> nat \<times> nat \<Rightarrow> real \<times> real \<times> real \<Rightarrow> real \<times> real \<times> real" where
  "centroidStep data minA p acc =
     (case acc of (sumA, sumX, sumY) \<Rightarrow>
        let a = alphaAt data p in
        if a < minA then (sumA, sumX, sumY)
        else (sumA + real a, sumX + (real (fst p) + 0.5) * real a,
              sumY + (real (snd p) + 0.5) * real a))"

definition centroid :: "nat \<Rightarrow> nat list \<Rightarrow> nat \<Rightarrow> Point option" where
  "centroid th data minA =
     (case fold (centroidStep data minA) (sampleGrid th) (0, 0, 0) of
        (sumA, sumX, sumY) \<Rightarrow>
          if sumA \<le> 0 then None else Some \<lparr> px = sumX / sumA, py = sumY / sumA \<rparr>)"

text \<open>\<^verbatim>\<open>const thresh = Math.max(40, Math.round(maxA * 0.55))\<close>\<close>

definition thresh :: "nat \<Rightarrow> nat" where
  "thresh maxA = nat (max 40 (Math_round (real maxA * 0.55)))"

text \<open>
  The part of \<^verbatim>\<open>heatmapAnchor\<close> that works on the pixel data, from \<^verbatim>\<open>const data = img.data\<close>
  to the clamped result: \<open>cw\<close> and \<open>ch\<close> are \<^verbatim>\<open>canvasEl.width\<close> and \<^verbatim>\<open>canvasEl.height\<close>.
\<close>

definition anchorOfData :: "real \<Rightarrow> real \<Rightarrow> nat \<Rightarrow> nat list \<Rightarrow> Point option" where
  "anchorOfData cw ch th data =
     (let maxA = maxAlpha data in
      if maxA \<le> 0 then None
      else
        let c = (case centroid th data (thresh maxA) of
                   Some c \<Rightarrow> Some c
                 | None \<Rightarrow> centroid th data 1)
        in case c of
             None \<Rightarrow> None
           | Some c \<Rightarrow>
               Some \<lparr> px = max 0 (min cw ((px c / real tw) * cw)),
                      py = max 0 (min ch ((py c / real th) * ch)) \<rparr>)"

text \<open>
  A loaded heatmap image: its natural size, and the bytes \<^verbatim>\<open>getImageData\<close> returns once
  the image has been drawn onto the \<open>tw\<close> by \<open>th\<close> canvas (\<open>None\<close> when the call throws).
  An entry of \<^verbatim>\<open>heatmapEntries\<close> is \<^verbatim>\<open>{ id, img }\<close> with \<^verbatim>\<open>img\<close> possibly \<^verbatim>\<open>null\<close>.
\<close>

record HeatImage =
  img_width :: nat
  img_height :: nat
  imageData :: "nat list option"

record HeatEntry =
  entry_id :: string
  entry_img :: "HeatImage option"

record HeatCtx =
  hmCtx :: bool
  heatmapEntries :: "HeatEntry list"
  canvasElWidth :: real
  canvasElHeight :: real

text \<open>
  \<^verbatim>\<open>const th = Math.max(1, Math.round((tw * srcImg.height) / Math.max(1, srcImg.width)))\<close>
\<close>

definition heatmapRows :: "HeatImage \<Rightarrow> nat" where
  "heatmapRows srcImg =
     nat (max 1 (Math_round (real (tw * img_height srcImg) / real (max 1 (img_width srcImg)))))"

text \<open>
  \<^verbatim>\<open>heatmapAnchor(id)\<close> with its cache \<^verbatim>\<open>heatmapAnchorCache\<close> passed in and returned.
\<close>

definition heatmapAnchor ::
  "HeatCtx \<Rightarrow> (string \<rightharpoonup> Point) \<Rightarrow> string \<Rightarrow> Point option \<times> (string \<rightharpoonup> Point)" where
  "heatmapAnchor E cache ident =
     (case cache ident of
        Some hit \<Rightarrow> (Some hit, cache)
      | None \<Rightarrow>
          if \<not> hmCtx E then (None, cache)
          else case find (\<lambda>e. entry_id e = ident) (heatmapEntries E) of
                 None \<Rightarrow> (None, cache)
               | Some entry \<Rightarrow>
                   (case entry_img entry of
                      None \<Rightarrow> (None, cache)
                    | Some srcImg \<Rightarrow>
                        (case imageData srcImg of
                           None \<Rightarrow> (None, cache)
                         | Some data \<Rightarrow>
                             (case anchorOfData (canvasElWidth E) (canvasElHeight E)
                                     (heatmapRows srcImg) data of
                                None \<Rightarrow> (None, cache)
                              | Some out \<Rightarrow> (Some out, cache(ident \<mapsto> out))))))"

text \<open>
  The landmark-relative points that \<^verbatim>\<open>metricAnchor\<close> falls back to, and
  \<^verbatim>\<open>metricAnchor(id)\<close> itself.
\<close>

record FacePoints =
  nose :: Point
  forehead :: Point
  leftCheek :: Point
  rightCheek :: Point
  leftUnderEye :: Point
  rightUnderEye :: Point
  leftEyeOuter :: Point
  rightEyeOuter :: Point
  centre :: Point

definition avg2 :: "Point \<Rightarrow> Point \<Rightarrow> Point" where
  "avg2 a b = \<lparr> px = (px a + px b) / 2, py = (py a + py b) / 2 \<rparr>"

definition fallbackAnchor :: "FacePoints \<Rightarrow> string \<Rightarrow> Point" where
  "fallbackAnchor F ident =
     (if ident = ''oiliness'' then nose F
      else if ident = ''redness'' then avg2 (leftCheek F) (rightCheek F)
      else if ident = ''uneven_tone'' then forehead F
      else if ident = ''texture'' then avg2 (nose F) (rightCheek F)
      else if ident = ''puffy_eyes'' then avg2 (leftUnderEye F) (rightUnderEye F)
      else if ident = ''wrinkles''
        then avg2 (forehead F) (avg2 (leftEyeOuter F) (rightEyeOuter F))
      else centre F)"

definition metricAnchor ::
  "HeatCtx \<Rightarrow> FacePoints \<Rightarrow> (string \<rightharpoonup> Point) \<Rightarrow> string \<Rightarrow> Point \<times> (string \<rightharpoonup> Point)" where
  "metricAnchor E F cache ident =
     (case heatmapAnchor E cache ident of
        (Some hm, cache') \<Rightarrow> (hm, cache')
      | (None, cache') \<Rightarrow> (fallbackAnchor F ident, cache'))"

text \<open>
  The weighted centroid, written with sums: over the visited pixels whose alpha is at
  least \<open>minA\<close>, each weighted by its alpha and located at its centre.
\<close>

definition cleared :: "nat \<Rightarrow> nat list \<Rightarrow> nat \<Rightarrow> (nat \<times> nat) list" where
  "cleared th data minA = filter (\<lambda>p. minA \<le> alphaAt data p) (sampleGrid th)"

definition weightedCentroid :: "nat list \<Rightarrow> (nat \<times> nat) list \<Rightarrow> Point" where
  "weightedCentroid data ps =
     \<lparr> px = (\<Sum>p\<leftarrow>ps. (real (fst p) + 0.5) * real (alphaAt data p))
             / (\<Sum>p\<leftarrow>ps. real (alphaAt data p)),
       py = (\<Sum>p\<leftarrow>ps. (real (snd p) + 0.5) * real (alphaAt data p))
             / (\<Sum>p\<leftarrow>ps. real (alphaAt data p)) \<rparr>"

definition toCanvas :: "real \<Rightarrow> real \<Rightarrow> nat \<Rightarrow> Point \<Rightarrow> Point" where
  "toCanvas cw ch th c =
     \<lparr> px = max 0 (min cw ((px c / real tw) * cw)),
       py = max 0 (min ch ((py c / real th) * ch)) \<rparr>"

text \<open>
  Concrete values for evaluation: a 320 by 2 heatmap, downsampled to 160 by 1, all
  transparent except for the alphas \<open>a\<close>, \<open>b\<close>, \<open>c\<close> of the pixels 10, 11 and 12 of its
  only row (bytes 43, 47 and 51); a renderer that holds it for the metric
  \<open>redness\<close>; and the face points of a 600 by 400 canvas.
\<close>

definition stripe :: "nat \<Rightarrow> nat \<Rightarrow> nat \<Rightarrow> nat list" where
  "stripe a b c = (replicate (4 * tw) 0) [43 := a, 47 := b, 51 := c]"

definition heatCtxOf :: "nat list \<Rightarrow> HeatCtx" where
  "heatCtxOf data =
     \<lparr> hmCtx = True,
       heatmapEntries =
         [\<lparr> entry_id = ''redness'',
            entry_img = Some \<lparr> img_width = 320, img_height = 2, imageData = Some data \<rparr> \<rparr>],
       canvasElWidth = 600, canvasElHeight = 400 \<rparr>"

definition demoPoints :: FacePoints where
  "demoPoints =
     \<lparr> nose = \<lparr> px = 300, py = 200 \<rparr>, forehead = \<lparr> px = 300, py = 90 \<rparr>,
       leftCheek = \<lparr> px = 240, py = 230 \<rparr>, rightCheek = \<lparr> px = 360, py = 230 \<rparr>,
       leftUnderEye = \<lparr> px = 260, py = 170 \<rparr>, rightUnderEye = \<lparr> px = 340, py = 170 \<rparr>,
       leftEyeOuter = \<lparr> px = 230, py = 160 \<rparr>, rightEyeOuter = \<lparr> px = 370, py = 160 \<rparr>,
       centre = \<lparr> px = 300, py = 200 \<rparr> \<rparr>"

section \<open>Face observations of the detection loop\<close>

text \<open>
  One pass of the \<^verbatim>\<open>render\<close> callback as far as it concerns \<^verbatim>\<open>latestFaceRef\<close>: whether
  detection runs at all (the landmarker is loaded, the video has data and shows a new
  frame), the video size, and the landmarks of the first face,
  \<^verbatim>\<open>res.faceLandmarks?.[0]\<close>, as normalised points (empty when there is none).
\<close>

record Frame =
  detecting :: bool
  videoWidth :: nat
  videoHeight :: nat
  faceLandmarks :: "Point list"

text \<open>
  The body of \<^verbatim>\<open>for (const p of lm0)\<close> on the bounds \<^verbatim>\<open>minX\<close>, \<^verbatim>\<open>minY\<close>, \<^verbatim>\<open>maxX\<close>, \<^verbatim>\<open>maxY\<close>
  (here \<open>loX\<close>, \<open>loY\<close>, \<open>hiX\<close>, \<open>hiY\<close>).
\<close>

definition boundsStep ::
  "nat \<Rightarrow> nat \<Rightarrow> Point \<Rightarrow> real \<times> real \<times> real \<times> real \<Rightarrow> real \<times> real \<times> real \<times> real" where
  "boundsStep vw vh p acc =
     (case acc of (loX, loY, hiX, hiY) \<Rightarrow>
        let x = px p * real vw; y = py p * real vh
        in (if x < loX then x else loX, if y < loY then y else loY,
            if x > hiX then x else hiX, if y > hiY then y else hiY))"

text \<open>
  The value written to \<^verbatim>\<open>latestFaceRef.current\<close> for the landmarks \<open>lm0\<close>. The bounds
  start at plus and minus infinity, so the first landmark sets all four; the loop then
  runs over the rest. \<^verbatim>\<open>lm0[1]\<close> is the nose, absent when there is one landmark only.
\<close>

definition observeFace :: "nat \<Rightarrow> nat \<Rightarrow> Point list \<Rightarrow> Face" where
  "observeFace vw vh lm0 =
     (case lm0 of
        [] \<Rightarrow> \<lparr> found = False, coverage = 0, noseRatio = 0.5 \<rparr>
      | p # ps \<Rightarrow>
          (case fold (boundsStep vw vh) ps
                  (px p * real vw, py p * real vh, px p * real vw, py p * real vh) of
             (loX, loY, hiX, hiY) \<Rightarrow>
               let faceW = max 1 (hiX - loX);
                   faceH = max 1 (hiY - loY);
                   area = max 0 (faceW * faceH);
                   cov = max 0 (min 1 (area / real (vw * vh)));
                   noseX = (if 1 < length lm0 then px (lm0 ! 1) * real vw
                            else (loX + hiX) / 2);
                   nr = max 0 (min 1 ((noseX - loX) / max 1 (hiX - loX)))
               in \<lparr> found = True, coverage = cov, noseRatio = nr \<rparr>))"

definition renderFrame :: "Frame \<Rightarrow> Face \<Rightarrow> Face" where
  "renderFrame fr face =
     (if detecting fr \<and> videoWidth fr > 0 \<and> videoHeight fr > 0
      then observeFace (videoWidth fr) (videoHeight fr) (faceLandmarks fr)
      else face)"

text \<open>
  The content of \<^verbatim>\<open>latestFaceRef\<close> after a sequence of frames, starting from its value at
  mount. These are all the writes of the ref in the program.
\<close>

definition watch :: "Frame list \<Rightarrow> Face" where
  "watch frames = fold renderFrame frames (latestFace initialState)"

text \<open>
  What every value of \<^verbatim>\<open>latestFaceRef\<close> satisfies: a found face has a positive coverage,
  and the nose ratio lies in the unit interval.
\<close>

definition observed :: "Face \<Rightarrow> bool" where
  "observed face =
     ((found face \<longrightarrow> 0 < coverage face) \<and> 0 \<le> noseRatio face \<and> noseRatio face \<le> 1)"

text \<open>
  Concrete values for evaluation: a 100 by 100 video whose face box spans the frame,
  with the nose at the horizontal position \<open>r\<close>.
\<close>

definition frameWithNose :: "real \<Rightarrow> Frame" where
  "frameWithNose r =
     \<lparr> detecting = True, videoWidth = 100, videoHeight = 100,
       faceLandmarks = [\<lparr> px = 0, py = 0 \<rparr>, \<lparr> px = r, py = 0.5 \<rparr>, \<lparr> px = 1, py = 1 \<rparr>] \<rparr>"

definition emptyFrame :: Frame where
  "emptyFrame = \<lparr> detecting = True, videoWidth = 100, videoHeight = 100, faceLandmarks = [] \<rparr>"

section \<open>The clock of the auto-capture effects\<close>

text \<open>
  The value of \<^verbatim>\<open>Date.now()\<close> that an event reads, if it reads the clock; a sequence of
  events whose clock readings never decrease, starting from the reading \<open>t\<close>; and the
  last reading after the sequence.
\<close>

fun eventClock :: "Event \<Rightarrow> int option" where
  "eventClock (EntryGate now) = Some now"
| "eventClock (CountdownZero now env) = Some now"
| "eventClock ev = None"

fun steady :: "int \<Rightarrow> Event list \<Rightarrow> bool" where
  "steady t [] = True"
| "steady t (ev # evs) =
     (case eventClock ev of
        None \<Rightarrow> steady t evs
      | Some now \<Rightarrow> t \<le> now \<and> steady now evs)"

fun clockAfter :: "int \<Rightarrow> Event list \<Rightarrow> int" where
  "clockAfter t [] = t"
| "clockAfter t (ev # evs) =
     (case eventClock ev of
        None \<Rightarrow> clockAfter t evs
      | Some now \<Rightarrow> clockAfter now evs)"

text \<open>
  At the clock reading \<open>t\<close> the machine is idle or the cooldown since the last automatic
  capture has passed.
\<close>

definition cooled :: "int \<Rightarrow> AppState \<Rightarrow> bool" where
  "cooled t s = (autoCountdown s = None \<or> t - lastAutoCaptureAt s > 2500)"

text \<open>
  Concrete values for evaluation: a session that opens the capture step, switches the
  camera and auto-capture on, sees a good front face, starts the countdown at
  \<open>5000\<close> and lets the timer run it down to zero.
\<close>

definition countdownRun :: "Event list" where
  "countdownRun =
     [SetStep 1, SetCameraOn True, SetAutoCapture True, FaceSeen frontFace,
      Sample goodSample, EntryGate 5000, TimerFired, TimerFired, TimerFired]"

section \<open>Quality aggregator\<close>

text \<open>
  C6. For brightness, sharpness and face coverage in the unit interval the aggregated
  score is \<open>0.45 * sharpness + 0.35 * brightCentered + 0.20 * sizeScore\<close> when a face is
  found and \<open>0\<close> otherwise, with \<open>brightCentered = max 0 (1 - |brightness - 0.55| / 0.55)\<close>
  and \<open>sizeScore = min 1 (faceCoverage / 0.20)\<close>; so the score lies in the unit interval
  and is \<open>0\<close> when no face is found.
\<close>

theorem score_formula_and_range:
  assumes "0 \<le> b" "b \<le> 1" "0 \<le> s" "s \<le> 1" "0 \<le> coverage face" "coverage face \<le> 1"
  shows "score (sampleQuality b s face) =
           (if found face
            then 0.45 * s + 0.35 * max 0 (1 - \<bar>b - 0.55\<bar> / 0.55)
                 + 0.20 * min 1 (coverage face / 0.20)
            else 0)
         \<and> 0 \<le> score (sampleQuality b s face)
         \<and> score (sampleQuality b s face) \<le> 1
         \<and> (\<not> found face \<longrightarrow> score (sampleQuality b s face) = 0)"
proof -
  let ?bc = "max 0 (1 - \<bar>b - 0.55\<bar> / 0.55)"
  let ?ss = "min 1 (coverage face / 0.20)"
  have bc_le: "1 - \<bar>b - 0.55\<bar> / 0.55 \<le> 1" by simp
  have bc: "max 0 (min 1 (1 - \<bar>b - 0.55\<bar> / 0.55)) = ?bc"
    using bc_le by (simp add: min_def)
  have eq: "score (sampleQuality b s face) =
              (if found face then 0.45 * s + 0.35 * ?bc + 0.20 * ?ss else 0)"
    unfolding sampleQuality_def Let_def using bc by simp
  have bc0: "0 \<le> ?bc" and bc1: "?bc \<le> 1" using bc_le by simp_all
  have ss0: "0 \<le> ?ss" and ss1: "?ss \<le> 1" using assms(5) by simp_all
  have bounds: "0 \<le> 0.45 * x + 0.35 * y + 0.20 * z \<and> 0.45 * x + 0.35 * y + 0.20 * z \<le> 1"
    if "0 \<le> x" "x \<le> 1" "0 \<le> y" "y \<le> 1" "0 \<le> z" "z \<le> 1" for x y z :: real
    using that by simp
  have lo: "0 \<le> 0.45 * s + 0.35 * ?bc + 0.20 * ?ss"
    and hi: "0.45 * s + 0.35 * ?bc + 0.20 * ?ss \<le> 1"
    using bounds [OF assms(3) assms(4) bc0 bc1 ss0 ss1] by blast+
  show ?thesis using eq lo hi by simp
qed

theorem score_formula_and_range_witness:
  "(0::real) \<le> 0.55 \<and> (0.55::real) \<le> 1 \<and> (0::real) \<le> 0.9 \<and> (0.9::real) \<le> 1
   \<and> score (sampleQuality 0.55 0.9 \<lparr> found = True, coverage = 0.25, noseRatio = 0.5 \<rparr>) = 0.955
   \<and> score (sampleQuality 0.55 0.9 \<lparr> found = False, coverage = 0, noseRatio = 0.5 \<rparr>) = 0"
  using score_formula_and_range [of "0.55" "0.9" "\<lparr> found = True, coverage = 0.25, noseRatio = 0.5 \<rparr>"]
        score_formula_and_range [of "0.55" "0.9" "\<lparr> found = False, coverage = 0, noseRatio = 0.5 \<rparr>"]
  by simp

section \<open>Pose classification\<close>

lemma facePose_cases:
  "(found face \<and> coverage face > 0 \<longrightarrow>
      facePose face = (if noseRatio face < 0.46 then Left
                       else if noseRatio face > 0.54 then Right else Front))
   \<and> (\<not> found face \<or> coverage face \<le> 0 \<longrightarrow> facePose face = Unknown)
   \<and> pose (sampleQuality b s face) = facePose face"
  by (simp add: facePose_def sampleQuality_def Let_def)

lemma observeFace_none: "observeFace vw vh [] = \<lparr> found = False, coverage = 0, noseRatio = 0.5 \<rparr>"
  by (simp add: observeFace_def)

lemma observeFace_some:
  assumes "0 < vw" "0 < vh"
  shows "found (observeFace vw vh (p # ps))
         \<and> 0 < coverage (observeFace vw vh (p # ps))
         \<and> coverage (observeFace vw vh (p # ps)) \<le> 1
         \<and> 0 \<le> noseRatio (observeFace vw vh (p # ps))
         \<and> noseRatio (observeFace vw vh (p # ps)) \<le> 1"
proof -
  obtain loX loY hiX hiY where b:
    "fold (boundsStep vw vh) ps (px p * real vw, py p * real vh, px p * real vw, py p * real vh)
       = (loX, loY, hiX, hiY)"
    by (metis prod_cases4)
  let ?area = "max 0 (max 1 (hiX - loX) * max 1 (hiY - loY))"
  have "1 * 1 \<le> max 1 (hiX - loX) * max 1 (hiY - loY)"
    by (intro mult_mono) simp_all
  then have area: "0 < ?area" by simp
  have "0 < real (vw * vh)" using assms by simp
  with area have "0 < ?area / real (vw * vh)" by (rule divide_pos_pos)
  then have cov: "0 < max 0 (min 1 (?area / real (vw * vh)))" by simp
  show ?thesis using cov by (simp add: observeFace_def b Let_def)
qed

lemma renderFrame_observed: "observed face \<Longrightarrow> observed (renderFrame fr face)"
proof (cases "detecting fr \<and> videoWidth fr > 0 \<and> videoHeight fr > 0")
  case False
  assume "observed face"
  with False show ?thesis by (auto simp add: renderFrame_def)
next
  case True
  show ?thesis
  proof (cases "faceLandmarks fr")
    case Nil
    with True show ?thesis by (simp add: renderFrame_def observeFace_none observed_def)
  next
    case (Cons p ps)
    with True observeFace_some [of "videoWidth fr" "videoHeight fr" p ps]
    show ?thesis by (simp add: renderFrame_def observed_def)
  qed
qed

lemma fold_renderFrame_observed:
  "observed face \<Longrightarrow> observed (fold renderFrame frames face)"
  by (induction frames arbitrary: face) (simp_all add: renderFrame_observed)

lemma watch_observed: "observed (watch frames)"
  unfolding watch_def
  by (rule fold_renderFrame_observed) (simp add: observed_def initialState_def)

text \<open>
  C7. The pose is a function of the nose ratio alone: for every face observation the
  program holds in \<open>latestFaceRef\<close> (its value at mount, or what a frame of the detection
  loop writes), the nose ratio lies in the unit interval and the pose is \<open>Left\<close> when it
  is below \<open>0.46\<close>, \<open>Right\<close> when it is above \<open>0.54\<close> and \<open>Front\<close> otherwise, the two
  bounds included; it is \<open>Unknown\<close> when no face is found. The sampler reports this pose.
  (The test \<open>coverage > 0\<close> of the expression is true for every found face: the loop
  computes the coverage from a face box at least one pixel wide and high.)
\<close>

theorem pose_classification:
  assumes "face = watch frames"
  shows "0 \<le> noseRatio face \<and> noseRatio face \<le> 1
         \<and> (found face \<longrightarrow>
               facePose face = (if noseRatio face < 0.46 then Left
                                else if noseRatio face > 0.54 then Right else Front))
         \<and> (\<not> found face \<longrightarrow> facePose face = Unknown)
         \<and> pose (sampleQuality b s face) = facePose face"
  using watch_observed [of frames] facePose_cases [of face b s] assms
  by (simp add: observed_def)

lemma watch_frameWithNose:
  "0 \<le> r \<Longrightarrow> r \<le> 1 \<Longrightarrow>
   watch (frames @ [frameWithNose r]) = \<lparr> found = True, coverage = 1, noseRatio = r \<rparr>"
  by (simp add: watch_def renderFrame_def frameWithNose_def observeFace_def boundsStep_def
        Let_def)

lemma watch_emptyFrame:
  "watch (frames @ [emptyFrame]) = \<lparr> found = False, coverage = 0, noseRatio = 0.5 \<rparr>"
  by (simp add: watch_def renderFrame_def emptyFrame_def observeFace_def)

theorem pose_classification_witness:
  "facePose (watch [frameWithNose 0.45]) = Left
   \<and> facePose (watch [frameWithNose 0.46]) = Front
   \<and> facePose (watch [frameWithNose 0.50]) = Front
   \<and> facePose (watch [frameWithNose 0.54]) = Front
   \<and> facePose (watch [frameWithNose 0.55]) = Right
   \<and> facePose (watch [frameWithNose 0.50, emptyFrame]) = Unknown
   \<and> facePose (watch []) = Unknown"
  using pose_classification [of "watch [frameWithNose 0.45]" "[frameWithNose 0.45]"]
        pose_classification [of "watch [frameWithNose 0.46]" "[frameWithNose 0.46]"]
        pose_classification [of "watch [frameWithNose 0.50]" "[frameWithNose 0.50]"]
        pose_classification [of "watch [frameWithNose 0.54]" "[frameWithNose 0.54]"]
        pose_classification [of "watch [frameWithNose 0.55]" "[frameWithNose 0.55]"]
        pose_classification [of "watch [frameWithNose 0.50, emptyFrame]"
                                "[frameWithNose 0.50, emptyFrame]"]
        pose_classification [of "watch []" "[]"]
        watch_frameWithNose [of "0.45" "[]"] watch_frameWithNose [of "0.46" "[]"]
        watch_frameWithNose [of "0.50" "[]"] watch_frameWithNose [of "0.54" "[]"]
        watch_frameWithNose [of "0.55" "[]"] watch_emptyFrame [of "[frameWithNose 0.50]"]
  by (simp add: watch_def initialState_def)

section \<open>Warnings\<close>

text \<open>
  C9. The warning list of a sample holds exactly the warnings whose condition is true:
  low light iff brightness \<open>< 0.25\<close>, strong light iff brightness \<open>> 0.88\<close>, blur iff
  sharpness \<open>< 0.25\<close>, no face iff no face is found, face too small iff a face is found
  with coverage \<open>< 0.08\<close>. Each is listed once, in this order, all that apply together;
  the conditions read the three inputs only and never the score.
\<close>

theorem warnings_exact:
  "(LowLight \<in> set (warnings (sampleQuality b s face)) \<longleftrightarrow> b < 0.25)
   \<and> (StrongLight \<in> set (warnings (sampleQuality b s face)) \<longleftrightarrow> b > 0.88)
   \<and> (Blurry \<in> set (warnings (sampleQuality b s face)) \<longleftrightarrow> s < 0.25)
   \<and> (NoFace \<in> set (warnings (sampleQuality b s face)) \<longleftrightarrow> \<not> found face)
   \<and> (FaceTooSmall \<in> set (warnings (sampleQuality b s face))
        \<longleftrightarrow> found face \<and> coverage face < 0.08)
   \<and> distinct (warnings (sampleQuality b s face))
   \<and> warnings (sampleQuality b s face) =
       filter (\<lambda>w. case w of LowLight \<Rightarrow> b < 0.25 | StrongLight \<Rightarrow> b > 0.88
                   | Blurry \<Rightarrow> s < 0.25 | NoFace \<Rightarrow> \<not> found face
                   | FaceTooSmall \<Rightarrow> found face \<and> coverage face < 0.08)
              [LowLight, StrongLight, Blurry, NoFace, FaceTooSmall]"
  by (simp add: sampleQuality_def Let_def pushIf_def)

theorem warnings_exact_witness:
  "warnings (sampleQuality 0.1 0.1 \<lparr> found = False, coverage = 0, noseRatio = 0.5 \<rparr>)
     = [LowLight, Blurry, NoFace]
   \<and> warnings (sampleQuality 0.95 0.9 \<lparr> found = True, coverage = 0.05, noseRatio = 0.5 \<rparr>)
     = [StrongLight, FaceTooSmall]
   \<and> warnings (sampleQuality 0.55 0.9 \<lparr> found = True, coverage = 0.25, noseRatio = 0.5 \<rparr>) = []"
  using warnings_exact [of "0.1" "0.1" "\<lparr> found = False, coverage = 0, noseRatio = 0.5 \<rparr>"]
        warnings_exact [of "0.95" "0.9" "\<lparr> found = True, coverage = 0.05, noseRatio = 0.5 \<rparr>"]
        warnings_exact [of "0.55" "0.9" "\<lparr> found = True, coverage = 0.25, noseRatio = 0.5 \<rparr>"]
  by simp

section \<open>Auto-capture: facts about single steps\<close>

lemma goodSample_fields:
  "score goodSample = 0.955" "warnings goodSample = []" "pose goodSample = Front"
  "good goodSample"
  by (simp_all add: goodSample_def frontFace_def sampleQuality_def Let_def pushIf_def
        facePose_def good_def)

lemma facePose_frontFace: "facePose frontFace = Front"
  by (simp add: frontFace_def facePose_def)

lemma captureFromCamera_keeps:
  "autoCountdown (captureFromCamera env s) = autoCountdown s"
  "lastAutoCaptureAt (captureFromCamera env s) = lastAutoCaptureAt s"
  "scanQuality (captureFromCamera env s) = scanQuality s"
  by (simp_all add: captureFromCamera_def Let_def split: option.split)

lemma addFiles_keeps:
  "autoCountdown (addFiles files s) = autoCountdown s"
  "lastAutoCaptureAt (addFiles files s) = lastAutoCaptureAt s"
  "scanQuality (addFiles files s) = scanQuality s"
  "lastCapturedPose (addFiles files s) = lastCapturedPose s"
  by (simp_all add: addFiles_def split: option.split)

lemma entryGate_keeps:
  "captures (entryGate now s) = captures s"
  "lastAutoCaptureAt (entryGate now s) = lastAutoCaptureAt s"
  "lastCapturedPose (entryGate now s) = lastCapturedPose s"
  "scanQuality (entryGate now s) = scanQuality s"
  by (simp_all add: entryGate_def)

lemma countdownTimer_keeps:
  "captures (countdownTimer s) = captures s"
  "lastAutoCaptureAt (countdownTimer s) = lastAutoCaptureAt s"
  "lastCapturedPose (countdownTimer s) = lastCapturedPose s"
  "scanQuality (countdownTimer s) = scanQuality s"
  "autoCountdown s = None \<Longrightarrow> autoCountdown (countdownTimer s) = None"
  by (simp_all add: countdownTimer_def split: option.split)

lemma zeroEffect_idle: "autoCountdown s = None \<Longrightarrow> zeroEffect now env s = s"
  by (simp add: zeroEffect_def)

lemma entryGate_in_cooldown:
  "autoCountdown s = None \<Longrightarrow> now - lastAutoCaptureAt s \<le> 2500 \<Longrightarrow>
   autoCountdown (entryGate now s) = None"
  by (simp add: entryGate_def)

text \<open>
  The cooldown is the only thing that holds the gate back in a state that is otherwise
  ready: one millisecond later the countdown starts.
\<close>

lemma entryGate_starts_after_cooldown:
  assumes "autoCapture s" "cameraOn s" "step s = 1" "length (captures s) < 3"
    "good (scanQuality s)"
    "pose (scanQuality s) = Unknown \<or> pose (scanQuality s) \<noteq> lastCapturedPose s"
    "autoCountdown s = None" "now - lastAutoCaptureAt s > 2500"
  shows "autoCountdown (entryGate now s) = Some 3"
  using assms by (auto simp add: entryGate_def)

lemma entryGate_same_pose:
  "pose (scanQuality s) \<noteq> Unknown \<Longrightarrow> pose (scanQuality s) = lastCapturedPose s \<Longrightarrow>
   entryGate now s = s\<lparr> autoCountdown := None \<rparr>"
  by (simp add: entryGate_def)

lemma zeroEffect_same_pose:
  "pose (scanQuality s) \<noteq> Unknown \<Longrightarrow> pose (scanQuality s) = lastCapturedPose s \<Longrightarrow>
   zeroEffect now env s = (if autoCountdown s = Some 0 then s\<lparr> autoCountdown := None \<rparr> else s)"
  by (simp add: zeroEffect_def)

lemma dispatch_same_pose:
  assumes "p \<noteq> Unknown" "samePose p ev" "lastCapturedPose s = p" "pose (scanQuality s) = p"
  shows "lastCapturedPose (dispatch ev s) = p \<and> pose (scanQuality (dispatch ev s)) = p
         \<and> captures (dispatch ev s) = captures s
         \<and> lastAutoCaptureAt (dispatch ev s) = lastAutoCaptureAt s
         \<and> (autoCountdown s = None \<longrightarrow> autoCountdown (dispatch ev s) = None)"
proof (cases ev)
  case (EntryGate now)
  then show ?thesis using assms by (simp add: entryGate_same_pose)
next
  case TimerFired
  then show ?thesis using assms by (simp add: countdownTimer_keeps)
next
  case (CountdownZero now env)
  then show ?thesis using assms by (simp add: zeroEffect_same_pose)
qed (use assms in simp_all)

lemma run_same_pose:
  assumes "p \<noteq> Unknown" "\<forall>ev\<in>set evs. samePose p ev"
    "lastCapturedPose s = p" "pose (scanQuality s) = p"
  shows "lastCapturedPose (run evs s) = p \<and> pose (scanQuality (run evs s)) = p
         \<and> captures (run evs s) = captures s
         \<and> lastAutoCaptureAt (run evs s) = lastAutoCaptureAt s
         \<and> (autoCountdown s = None \<longrightarrow> autoCountdown (run evs s) = None)"
  using assms(2-)
proof (induction evs arbitrary: s)
  case Nil
  then show ?case by (simp add: run_def)
next
  case (Cons ev evs)
  have step: "lastCapturedPose (dispatch ev s) = p \<and> pose (scanQuality (dispatch ev s)) = p
         \<and> captures (dispatch ev s) = captures s
         \<and> lastAutoCaptureAt (dispatch ev s) = lastAutoCaptureAt s
         \<and> (autoCountdown s = None \<longrightarrow> autoCountdown (dispatch ev s) = None)"
    using dispatch_same_pose [OF assms(1), of ev s] Cons.prems by simp
  have rest: "lastCapturedPose (run evs (dispatch ev s)) = p
         \<and> pose (scanQuality (run evs (dispatch ev s))) = p
         \<and> captures (run evs (dispatch ev s)) = captures (dispatch ev s)
         \<and> lastAutoCaptureAt (run evs (dispatch ev s)) = lastAutoCaptureAt (dispatch ev s)
         \<and> (autoCountdown (dispatch ev s) = None
              \<longrightarrow> autoCountdown (run evs (dispatch ev s)) = None)"
    using Cons.IH [of "dispatch ev s"] Cons.prems step by simp
  have unfold: "run (ev # evs) s = run evs (dispatch ev s)" by (simp add: run_def)
  show ?case unfolding unfold using step rest by simp
qed

lemma dispatch_in_cooldown:
  assumes "withinCooldown t0 ev" "lastAutoCaptureAt s = t0" "autoCountdown s = None"
  shows "lastAutoCaptureAt (dispatch ev s) = t0 \<and> autoCountdown (dispatch ev s) = None"
proof (cases ev)
  case (EntryGate now)
  then show ?thesis using assms by (simp add: entryGate_in_cooldown entryGate_keeps)
next
  case TimerFired
  then show ?thesis using assms by (simp add: countdownTimer_keeps)
next
  case (CountdownZero now env)
  then show ?thesis using assms by (simp add: zeroEffect_idle)
next
  case (ManualCapture env)
  then show ?thesis using assms by (simp add: captureFromCamera_keeps)
next
  case (Upload files)
  then show ?thesis using assms by (simp add: addFiles_keeps)
qed (use assms in simp_all)

lemma run_in_cooldown:
  assumes "\<forall>ev\<in>set evs. withinCooldown t0 ev" "lastAutoCaptureAt s = t0"
    "autoCountdown s = None"
  shows "lastAutoCaptureAt (run evs s) = t0 \<and> autoCountdown (run evs s) = None"
  using assms
proof (induction evs arbitrary: s)
  case Nil
  then show ?case by (simp add: run_def)
next
  case (Cons ev evs)
  have "lastAutoCaptureAt (dispatch ev s) = t0 \<and> autoCountdown (dispatch ev s) = None"
    using dispatch_in_cooldown [of t0 ev s] Cons.prems by simp
  then have "lastAutoCaptureAt (run evs (dispatch ev s)) = t0
      \<and> autoCountdown (run evs (dispatch ev s)) = None"
    using Cons.IH [of "dispatch ev s"] Cons.prems by simp
  then show ?case by (simp add: run_def)
qed

section \<open>Auto-capture: the claims\<close>

text \<open>
  What the zero effect does in any state whose countdown is at zero. It reads the clock
  only to stamp it.
\<close>

lemma zeroEffect_at_zero:
  assumes "autoCountdown s = Some 0"
  shows "(autoCapture s \<and> cameraOn s \<and> step s = 1 \<and> length (captures s) < 3
          \<and> score (scanQuality s) \<ge> 0.78 \<and> warnings (scanQuality s) = []
          \<and> (pose (scanQuality s) \<noteq> Unknown \<longrightarrow> pose (scanQuality s) \<noteq> lastCapturedPose s)
          \<longrightarrow> zeroEffect now env s
                = captureFromCamera env (s\<lparr> lastAutoCaptureAt := now, autoCountdown := None \<rparr>)
            \<and> lastAutoCaptureAt (zeroEffect now env s) = now
            \<and> autoCountdown (zeroEffect now env s) = None
            \<and> (video env \<and> context2d env \<and> toBlob env = Some b \<longrightarrow>
                 captures (zeroEffect now env s) = captures s @
                   [\<lparr> item_id = newId env, item_blob = b, item_url = newUrl env,
                      item_pose = facePose (latestFace s) \<rparr>]
                 \<and> lastCapturedPose (zeroEffect now env s) = facePose (latestFace s)))
         \<and> (\<not> (autoCapture s \<and> cameraOn s \<and> step s = 1 \<and> length (captures s) < 3
               \<and> score (scanQuality s) \<ge> 0.78 \<and> warnings (scanQuality s) = []
               \<and> (pose (scanQuality s) \<noteq> Unknown
                    \<longrightarrow> pose (scanQuality s) \<noteq> lastCapturedPose s))
          \<longrightarrow> zeroEffect now env s = s\<lparr> autoCountdown := None \<rparr>)"
proof -
  let ?s' = "s\<lparr> lastAutoCaptureAt := now, autoCountdown := None \<rparr>"
  have stamp: "lastAutoCaptureAt (captureFromCamera env ?s') = now"
    and idle: "autoCountdown (captureFromCamera env ?s') = None"
    by (simp_all add: captureFromCamera_keeps)
  have item: "captures (captureFromCamera env ?s') = captures s @
                [\<lparr> item_id = newId env, item_blob = b, item_url = newUrl env,
                   item_pose = facePose (latestFace s) \<rparr>]
              \<and> lastCapturedPose (captureFromCamera env ?s') = facePose (latestFace s)"
    if "video env" "context2d env" "toBlob env = Some b"
    using that by (simp add: captureFromCamera_def Let_def)
  show ?thesis
    using assms stamp idle item by (auto simp add: zeroEffect_def good_def)
qed

text \<open>
  A countdown starts only behind the cooldown test, and the stamp is written only
  together with the reset of the countdown. So, while the clock does not run backwards,
  a countdown in progress means that the cooldown has passed.
\<close>

lemma entryGate_cooled: "cooled t s \<Longrightarrow> t \<le> now \<Longrightarrow> cooled now (entryGate now s)"
  by (auto simp add: cooled_def entryGate_def)

lemma zeroEffect_cooled: "cooled t s \<Longrightarrow> t \<le> now \<Longrightarrow> cooled now (zeroEffect now env s)"
  by (auto simp add: cooled_def zeroEffect_def captureFromCamera_keeps)

lemma countdownTimer_cooled: "cooled t s \<Longrightarrow> cooled t (countdownTimer s)"
  by (auto simp add: cooled_def countdownTimer_def split: option.split)

lemma dispatch_cooled:
  assumes "cooled t s"
  shows "case eventClock ev of
           None \<Rightarrow> cooled t (dispatch ev s)
         | Some now \<Rightarrow> t \<le> now \<longrightarrow> cooled now (dispatch ev s)"
proof (cases ev)
  case (EntryGate now)
  then show ?thesis using assms by (simp add: entryGate_cooled)
next
  case TimerFired
  then show ?thesis using assms by (simp add: countdownTimer_cooled)
next
  case (CountdownZero now env)
  then show ?thesis using assms by (simp add: zeroEffect_cooled)
next
  case (ManualCapture env)
  then show ?thesis using assms by (simp add: cooled_def captureFromCamera_keeps)
next
  case (Upload files)
  then show ?thesis using assms by (simp add: cooled_def addFiles_keeps)
qed (use assms in \<open>simp_all add: cooled_def\<close>)

lemma run_cooled:
  "steady t evs \<Longrightarrow> cooled t s \<Longrightarrow> cooled (clockAfter t evs) (run evs s)"
proof (induction evs arbitrary: t s)
  case Nil
  then show ?case by (simp add: run_def)
next
  case (Cons ev evs)
  have unfold: "run (ev # evs) s = run evs (dispatch ev s)" by (simp add: run_def)
  show ?case
  proof (cases "eventClock ev")
    case None
    with dispatch_cooled [OF Cons.prems(2), of ev] have "cooled t (dispatch ev s)" by simp
    moreover from None Cons.prems(1) have "steady t evs" by simp
    ultimately have "cooled (clockAfter t evs) (run evs (dispatch ev s))" by (rule Cons.IH [rotated])
    with None show ?thesis by (simp add: unfold)
  next
    case (Some now)
    with Cons.prems(1) have le: "t \<le> now" and st: "steady now evs" by simp_all
    from dispatch_cooled [OF Cons.prems(2), of ev] Some le
    have "cooled now (dispatch ev s)" by simp
    with st have "cooled (clockAfter now evs) (run evs (dispatch ev s))" by (rule Cons.IH)
    with Some show ?thesis by (simp add: unfold)
  qed
qed

lemma cooled_later: "cooled t s \<Longrightarrow> t \<le> now \<Longrightarrow> cooled now s"
  by (auto simp add: cooled_def)

text \<open>
  C2. Take any run of the machine from an idle state (for instance the state at mount)
  in which the clock never runs backwards, and let the zero effect run at the end of it
  with the countdown at zero. Then the cooldown (3) holds: more than 2500 ms have passed
  since \<open>lastAutoCaptureAt\<close>. If auto-capture is enabled on the capture step with fewer
  than 3 captures and the three entry conditions hold, (1) score at least \<open>0.78\<close> with no
  warning, (2) pose unknown or different from \<open>lastCapturedPose\<close>, (3) cooldown passed,
  the effect stamps \<open>lastAutoCaptureAt\<close> with the current time, resets the countdown to
  idle and performs the capture, which (the video element, the 2D context and the blob
  being there) appends the item and records \<open>lastCapturedPose\<close>. If one of the three
  conditions fails, or auto-capture is not enabled or the budget is used up, it resets
  the countdown to idle and nothing else changes.
\<close>

theorem zero_effect_revalidates:
  assumes "autoCountdown s0 = None" "steady t0 evs" "s = run evs s0"
    "clockAfter t0 evs \<le> now" "autoCountdown s = Some 0"
  shows "now - lastAutoCaptureAt s > 2500
         \<and> (autoCapture s \<and> cameraOn s \<and> step s = 1 \<and> length (captures s) < 3
            \<and> (score (scanQuality s) \<ge> 0.78 \<and> warnings (scanQuality s) = [])
            \<and> (pose (scanQuality s) \<noteq> Unknown \<longrightarrow> pose (scanQuality s) \<noteq> lastCapturedPose s)
            \<and> now - lastAutoCaptureAt s > 2500
            \<longrightarrow> zeroEffect now env s
                  = captureFromCamera env (s\<lparr> lastAutoCaptureAt := now, autoCountdown := None \<rparr>)
              \<and> lastAutoCaptureAt (zeroEffect now env s) = now
              \<and> autoCountdown (zeroEffect now env s) = None
              \<and> (video env \<and> context2d env \<and> toBlob env = Some b \<longrightarrow>
                   captures (zeroEffect now env s) = captures s @
                     [\<lparr> item_id = newId env, item_blob = b, item_url = newUrl env,
                        item_pose = facePose (latestFace s) \<rparr>]
                   \<and> lastCapturedPose (zeroEffect now env s) = facePose (latestFace s)))
         \<and> (\<not> ((score (scanQuality s) \<ge> 0.78 \<and> warnings (scanQuality s) = [])
                \<and> (pose (scanQuality s) \<noteq> Unknown
                      \<longrightarrow> pose (scanQuality s) \<noteq> lastCapturedPose s)
                \<and> now - lastAutoCaptureAt s > 2500)
            \<longrightarrow> zeroEffect now env s = s\<lparr> autoCountdown := None \<rparr>)
         \<and> (\<not> (autoCapture s \<and> cameraOn s \<and> step s = 1 \<and> length (captures s) < 3)
            \<longrightarrow> zeroEffect now env s = s\<lparr> autoCountdown := None \<rparr>)"
proof -
  have "cooled t0 s0" using assms(1) by (simp add: cooled_def)
  with assms(2) have "cooled (clockAfter t0 evs) (run evs s0)" by (rule run_cooled)
  with assms(3,4) have "cooled now s" by (simp add: cooled_later)
  with assms(5) have cool: "now - lastAutoCaptureAt s > 2500" by (simp add: cooled_def)
  show ?thesis
    using cool zeroEffect_at_zero [OF assms(5), of now env b] by blast
qed

lemma initialState_fields:
  "autoCountdown initialState = None" "captures initialState = []"
  "lastAutoCaptureAt initialState = 0" "lastCapturedPose initialState = Unknown"
  by (simp_all add: initialState_def)

lemma countdownRun_state:
  "run countdownRun initialState =
     initialState\<lparr> step := 1, cameraOn := True, autoCapture := True, latestFace := frontFace,
                   scanQuality := goodSample, autoCountdown := Some 0 \<rparr>"
  by (simp add: countdownRun_def run_def initialState_def entryGate_def countdownTimer_def
        goodSample_fields)

theorem zero_effect_revalidates_witness:
  "autoCountdown initialState = None
   \<and> steady 0 countdownRun
   \<and> steady 0 (countdownRun @ [Sample (sampleQuality 0.1 0.9 frontFace)])
   \<and> clockAfter 0 countdownRun \<le> 8000
   \<and> autoCountdown (run countdownRun initialState) = Some 0
   \<and> captures (zeroEffect 8000 okEnv (run countdownRun initialState)) =
       [\<lparr> item_id = ''8c3f1a'', item_blob = [255, 216, 255], item_url = ''blob:1'',
          item_pose = Front \<rparr>]
   \<and> lastCapturedPose (zeroEffect 8000 okEnv (run countdownRun initialState)) = Front
   \<and> lastAutoCaptureAt (zeroEffect 8000 okEnv (run countdownRun initialState)) = 8000
   \<and> autoCountdown (zeroEffect 8000 okEnv (run countdownRun initialState)) = None
   \<and> zeroEffect 8000 okEnv
        (run (countdownRun @ [Sample (sampleQuality 0.1 0.9 frontFace)]) initialState)
       = (run (countdownRun @ [Sample (sampleQuality 0.1 0.9 frontFace)]) initialState)
           \<lparr> autoCountdown := None \<rparr>"
proof -
  have st: "steady 0 countdownRun"
    and st2: "steady 0 (countdownRun @ [Sample (sampleQuality 0.1 0.9 frontFace)])"
    and cl: "clockAfter 0 countdownRun = 5000"
    and cl2: "clockAfter 0 (countdownRun @ [Sample (sampleQuality 0.1 0.9 frontFace)]) = 5000"
    by (simp_all add: countdownRun_def)
  have dark: "run (countdownRun @ [Sample (sampleQuality 0.1 0.9 frontFace)]) initialState
      = (run countdownRun initialState)\<lparr> scanQuality := sampleQuality 0.1 0.9 frontFace \<rparr>"
    by (simp add: run_def)
  have warn: "warnings (sampleQuality 0.1 0.9 frontFace) = [LowLight]"
    by (simp add: sampleQuality_def Let_def pushIf_def frontFace_def)
  show ?thesis
    using zero_effect_revalidates
            [of initialState 0 countdownRun "run countdownRun initialState" 8000 okEnv
                "[255, 216, 255]"]
          zero_effect_revalidates
            [of initialState 0 "countdownRun @ [Sample (sampleQuality 0.1 0.9 frontFace)]"
                "run (countdownRun @ [Sample (sampleQuality 0.1 0.9 frontFace)]) initialState"
                8000 okEnv "[255, 216, 255]"]
          st st2 cl cl2 warn
    by (simp add: dark countdownRun_state goodSample_fields facePose_frontFace okEnv_def
          initialState_fields captureFromCamera_def Let_def)
qed

text \<open>
  C3. Let the current pose be \<open>p\<close>, not unknown and equal to \<open>lastCapturedPose\<close> (for
  instance \<open>Front\<close>). Then the entry gate only clears the countdown and the zero effect
  only clears it, without a capture, whatever the score and the warnings are. Over any
  sequence of events in which every quality sample has pose \<open>p\<close> and nothing else writes
  \<open>lastCapturedPose\<close>, no capture is added, no capture time is stamped, and an idle
  countdown stays idle.
\<close>

theorem same_pose_never_fires:
  assumes "p \<noteq> Unknown" "lastCapturedPose s = p" "pose (scanQuality s) = p"
    "\<forall>ev\<in>set evs. samePose p ev"
  shows "entryGate now s = s\<lparr> autoCountdown := None \<rparr>
         \<and> zeroEffect now env s =
             (if autoCountdown s = Some 0 then s\<lparr> autoCountdown := None \<rparr> else s)
         \<and> captures (run evs s) = captures s
         \<and> lastAutoCaptureAt (run evs s) = lastAutoCaptureAt s
         \<and> lastCapturedPose (run evs s) = p
         \<and> (autoCountdown s = None \<longrightarrow> autoCountdown (run evs s) = None)"
  using assms run_same_pose [of p evs s]
  by (simp add: entryGate_same_pose zeroEffect_same_pose)

theorem same_pose_never_fires_witness:
  "Front \<noteq> Unknown
   \<and> list_all (samePose Front)
        [Sample goodSample, EntryGate 20000, TimerFired, Sample goodSample,
         CountdownZero 21000 okEnv, EntryGate 30000]
   \<and> run [Sample goodSample, EntryGate 20000, TimerFired, Sample goodSample,
          CountdownZero 21000 okEnv, EntryGate 30000]
         (readyState\<lparr> lastCapturedPose := Front, autoCountdown := None \<rparr>)
       = readyState\<lparr> lastCapturedPose := Front, autoCountdown := None \<rparr>
   \<and> zeroEffect 21000 okEnv (readyState\<lparr> lastCapturedPose := Front \<rparr>)
       = readyState\<lparr> lastCapturedPose := Front, autoCountdown := None \<rparr>"
  using same_pose_never_fires
          [of Front "readyState\<lparr> lastCapturedPose := Front \<rparr>"
              "[Sample goodSample, EntryGate 20000, TimerFired, Sample goodSample,
                CountdownZero 21000 okEnv, EntryGate 30000]" 21000 okEnv]
  by (simp add: readyState_def initialState_def goodSample_fields run_def entryGate_def
        zeroEffect_def countdownTimer_def)

text \<open>
  C4. An automatic capture at time \<open>t0\<close> leaves \<open>lastAutoCaptureAt = t0\<close> and the countdown
  idle. From there, over any sequence of events in which the entry gate reads a clock of
  at most \<open>t0 + 2500\<close>, the countdown stays idle, whatever samples arrive: a countdown
  can start only when strictly more than 2500 ms have passed.
\<close>

theorem cooldown_blocks_countdown:
  assumes "autoCountdown s0 = Some 0" "autoCapture s0" "cameraOn s0" "step s0 = 1"
    "length (captures s0) < 3" "good (scanQuality s0)"
    "pose (scanQuality s0) = Unknown \<or> pose (scanQuality s0) \<noteq> lastCapturedPose s0"
    "\<forall>ev\<in>set evs. withinCooldown t0 ev"
  shows "lastAutoCaptureAt (zeroEffect t0 env s0) = t0
         \<and> autoCountdown (zeroEffect t0 env s0) = None
         \<and> autoCountdown (run evs (zeroEffect t0 env s0)) = None
         \<and> lastAutoCaptureAt (run evs (zeroEffect t0 env s0)) = t0"
proof -
  have fired: "zeroEffect t0 env s0
      = captureFromCamera env (s0\<lparr> lastAutoCaptureAt := t0, autoCountdown := None \<rparr>)"
    using assms(1-7) by (auto simp add: zeroEffect_def)
  have at: "lastAutoCaptureAt (zeroEffect t0 env s0) = t0"
    and idle: "autoCountdown (zeroEffect t0 env s0) = None"
    unfolding fired by (simp_all add: captureFromCamera_keeps)
  show ?thesis
    using at idle run_in_cooldown [OF assms(8) at idle] by simp
qed

theorem cooldown_blocks_countdown_witness:
  "autoCountdown readyState = Some 0
   \<and> list_all (withinCooldown 12000)
        [FaceSeen (frontFace\<lparr> noseRatio := 0.2 \<rparr>),
         Sample (sampleQuality 0.55 0.9 (frontFace\<lparr> noseRatio := 0.2 \<rparr>)),
         EntryGate 12000, EntryGate 14500]
   \<and> lastAutoCaptureAt (zeroEffect 12000 okEnv readyState) = 12000
   \<and> autoCountdown
        (run [FaceSeen (frontFace\<lparr> noseRatio := 0.2 \<rparr>),
              Sample (sampleQuality 0.55 0.9 (frontFace\<lparr> noseRatio := 0.2 \<rparr>)),
              EntryGate 12000, EntryGate 14500]
           (zeroEffect 12000 okEnv readyState)) = None
   \<and> autoCountdown
        (run [FaceSeen (frontFace\<lparr> noseRatio := 0.2 \<rparr>),
              Sample (sampleQuality 0.55 0.9 (frontFace\<lparr> noseRatio := 0.2 \<rparr>)),
              EntryGate 12000, EntryGate 14500, EntryGate 14501]
           (zeroEffect 12000 okEnv readyState)) = Some 3"
  using cooldown_blocks_countdown
          [of readyState
              "[FaceSeen (frontFace\<lparr> noseRatio := 0.2 \<rparr>),
                Sample (sampleQuality 0.55 0.9 (frontFace\<lparr> noseRatio := 0.2 \<rparr>)),
                EntryGate 12000, EntryGate 14500]" 12000 okEnv]
  by (simp add: readyState_def initialState_def goodSample_fields run_def entryGate_def
        zeroEffect_def captureFromCamera_def okEnv_def Let_def good_def
        sampleQuality_def pushIf_def frontFace_def facePose_def)

text \<open>
  C5. With 3 or more capture items the entry gate only clears the countdown, whatever
  the score, the warnings, the pose and the clock are, and the zero effect clears a
  countdown at zero without capturing or stamping a capture time.
\<close>

theorem budget_blocks_auto_capture:
  assumes "length (captures s) \<ge> 3"
  shows "entryGate now s = s\<lparr> autoCountdown := None \<rparr>
         \<and> zeroEffect now env s =
             (if autoCountdown s = Some 0 then s\<lparr> autoCountdown := None \<rparr> else s)
         \<and> captures (zeroEffect now env s) = captures s
         \<and> lastAutoCaptureAt (zeroEffect now env s) = lastAutoCaptureAt s"
  using assms by (simp add: entryGate_def zeroEffect_def)

theorem budget_blocks_auto_capture_witness:
  "length (captures (readyState\<lparr> captures := [someItem, someItem, someItem] \<rparr>)) \<ge> 3
   \<and> autoCountdown (entryGate 20000
        (readyState\<lparr> captures := [someItem, someItem, someItem], autoCountdown := None \<rparr>)) = None
   \<and> zeroEffect 20000 okEnv (readyState\<lparr> captures := [someItem, someItem, someItem] \<rparr>)
       = readyState\<lparr> captures := [someItem, someItem, someItem], autoCountdown := None \<rparr>"
  using budget_blocks_auto_capture
          [of "readyState\<lparr> captures := [someItem, someItem, someItem] \<rparr>" 20000 okEnv]
        budget_blocks_auto_capture
          [of "readyState\<lparr> captures := [someItem, someItem, someItem], autoCountdown := None \<rparr>"
              20000 okEnv]
  by (simp add: readyState_def initialState_def)

text \<open>
  C10. The 3-item budget is tested by the two automatic effects only. In every state,
  with any number of captures, a manual \<open>captureFromCamera\<close> whose video element, 2D
  context and blob are there appends one item, and \<open>addFiles\<close> appends one item per
  file; so the list can grow beyond 3.
\<close>

theorem manual_capture_and_upload_ignore_budget:
  "(video env \<and> context2d env \<and> toBlob env = Some b \<longrightarrow>
      captures (captureFromCamera env s) = captures s @
        [\<lparr> item_id = newId env, item_blob = b, item_url = newUrl env,
           item_pose = facePose (latestFace s) \<rparr>]
      \<and> length (captures (captureFromCamera env s)) = length (captures s) + 1)
   \<and> captures (addFiles (Some fs) s) = captures s @
        map (\<lambda>f. \<lparr> item_id = file_id f, item_blob = file_blob f, item_url = file_url f,
                    item_pose = Unknown \<rparr>) fs
   \<and> length (captures (addFiles (Some fs) s)) = length (captures s) + length fs"
  by (simp add: captureFromCamera_def addFiles_def Let_def)

theorem manual_capture_and_upload_ignore_budget_witness:
  "length (captures (readyState\<lparr> captures := [someItem, someItem, someItem] \<rparr>)) = 3
   \<and> length (captures (captureFromCamera okEnv
        (readyState\<lparr> captures := [someItem, someItem, someItem] \<rparr>))) = 4
   \<and> length (captures (addFiles
        (Some [\<lparr> file_blob = [137, 80], file_id = ''f1'', file_url = ''blob:2'' \<rparr>])
        (readyState\<lparr> captures := [someItem, someItem, someItem] \<rparr>))) = 4"
  using manual_capture_and_upload_ignore_budget
          [of okEnv "[255, 216, 255]" "readyState\<lparr> captures := [someItem, someItem, someItem] \<rparr>"
              "[\<lparr> file_blob = [137, 80], file_id = ''f1'', file_url = ''blob:2'' \<rparr>]"]
  by (simp add: readyState_def initialState_def okEnv_def)

section \<open>Heatmap anchors\<close>

lemma set_stepped: "set (stepped n) = {x. even x \<and> x < n}"
proof -
  have "x \<in> (\<lambda>k. 2 * k) ` {0..<(n + 1) div 2} \<longleftrightarrow> even x \<and> x < n" for x
  proof
    assume "x \<in> (\<lambda>k. 2 * k) ` {0..<(n + 1) div 2}"
    then obtain k where "x = 2 * k" "k < (n + 1) div 2" by auto
    then show "even x \<and> x < n" by auto
  next
    assume a: "even x \<and> x < n"
    then obtain k where k: "x = 2 * k" by (auto elim: evenE)
    with a have "k < (n + 1) div 2" by auto
    with k show "x \<in> (\<lambda>k. 2 * k) ` {0..<(n + 1) div 2}" by auto
  qed
  then show ?thesis by (auto simp add: stepped_def)
qed

lemma in_grid:
  "p \<in> set (concat (map (\<lambda>y. map (\<lambda>x. (x, y)) xs) ys)) \<longleftrightarrow> fst p \<in> set xs \<and> snd p \<in> set ys"
  by (cases p) auto

lemma in_sampleGrid:
  "p \<in> set (sampleGrid th) \<longleftrightarrow> even (fst p) \<and> fst p < tw \<and> even (snd p) \<and> snd p < th"
  unfolding sampleGrid_def in_grid set_stepped by simp

lemma fold_centroidStep:
  "fold (centroidStep data minA) ps (a, b, c) =
     (a + (\<Sum>p\<leftarrow>filter (\<lambda>p. minA \<le> alphaAt data p) ps. real (alphaAt data p)),
      b + (\<Sum>p\<leftarrow>filter (\<lambda>p. minA \<le> alphaAt data p) ps.
             (real (fst p) + 0.5) * real (alphaAt data p)),
      c + (\<Sum>p\<leftarrow>filter (\<lambda>p. minA \<le> alphaAt data p) ps.
             (real (snd p) + 0.5) * real (alphaAt data p)))"
  by (induction ps arbitrary: a b c) (simp_all add: centroidStep_def Let_def)

lemma sum_list_pos_real:
  "xs \<noteq> [] \<Longrightarrow> (\<forall>x\<in>set xs. 0 < f x) \<Longrightarrow> 0 < (\<Sum>x\<leftarrow>xs. (f x :: real))"
proof (induction xs)
  case Nil
  then show ?case by simp
next
  case (Cons x xs)
  show ?case
  proof (cases "xs = []")
    case True
    with Cons.prems show ?thesis by simp
  next
    case False
    with Cons have "0 < (\<Sum>x\<leftarrow>xs. f x)" by simp
    moreover have "0 < f x" using Cons.prems by simp
    ultimately show ?thesis by simp
  qed
qed

lemma cleared_weight:
  assumes "1 \<le> minA"
  shows "(\<Sum>p\<leftarrow>cleared th data minA. real (alphaAt data p)) \<le> 0
         \<longleftrightarrow> cleared th data minA = []"
proof
  assume le: "(\<Sum>p\<leftarrow>cleared th data minA. real (alphaAt data p)) \<le> 0"
  show "cleared th data minA = []"
  proof (rule ccontr)
    assume ne: "cleared th data minA \<noteq> []"
    have "\<forall>p\<in>set (cleared th data minA). 0 < real (alphaAt data p)"
      using assms by (auto simp add: cleared_def)
    from sum_list_pos_real [OF ne this] le show False by simp
  qed
next
  assume "cleared th data minA = []"
  then show "(\<Sum>p\<leftarrow>cleared th data minA. real (alphaAt data p)) \<le> 0" by simp
qed

lemma centroid_eq:
  assumes "1 \<le> minA"
  shows "centroid th data minA =
           (if cleared th data minA = [] then None
            else Some (weightedCentroid data (cleared th data minA)))"
proof -
  have "centroid th data minA =
          (if (\<Sum>p\<leftarrow>cleared th data minA. real (alphaAt data p)) \<le> 0 then None
           else Some (weightedCentroid data (cleared th data minA)))"
    by (simp add: centroid_def fold_centroidStep cleared_def weightedCentroid_def)
  then show ?thesis using cleared_weight [OF assms, where th = th and data = data] by simp
qed

lemma cleared_empty_iff:
  "cleared th data minA = [] \<longleftrightarrow> (\<forall>p\<in>set (sampleGrid th). alphaAt data p < minA)"
  by (auto simp add: cleared_def filter_empty_conv)

lemma fold_max_ge:
  "m \<le> fold (\<lambda>i maxA. if data ! i > maxA then data ! i else maxA) is (m::nat)
   \<and> (\<forall>i\<in>set is. data ! i \<le> fold (\<lambda>i maxA. if data ! i > maxA then data ! i else maxA) is m)"
proof (induction "is" arbitrary: m)
  case Nil
  then show ?case by simp
next
  case (Cons i "is")
  let ?m' = "if data ! i > m then data ! i else m"
  have "?m' \<le> fold (\<lambda>i maxA. if data ! i > maxA then data ! i else maxA) is ?m'"
    and "\<forall>j\<in>set is. data ! j \<le> fold (\<lambda>i maxA. if data ! i > maxA then data ! i else maxA) is ?m'"
    using Cons.IH [of ?m'] by blast+
  moreover have "m \<le> ?m'" "data ! i \<le> ?m'" by simp_all
  ultimately show ?case by (auto simp del: fold_simps simp add: fold_Cons intro: order_trans)
qed

lemma alpha_le_maxAlpha:
  "k < length data div 4 \<Longrightarrow> data ! (4 * k + 3) \<le> maxAlpha data"
  using fold_max_ge [of 0 data "map (\<lambda>k. 4 * k + 3) [0..<length data div 4]"]
  by (auto simp add: maxAlpha_def)

lemma sampled_le_maxAlpha:
  assumes "length data = 4 * tw * th" "p \<in> set (sampleGrid th)"
  shows "alphaAt data p \<le> maxAlpha data"
proof -
  from assms(2) have x: "fst p < tw" and y: "snd p < th" by (simp_all add: in_sampleGrid)
  have "snd p * tw + fst p < tw * th"
  proof -
    have "snd p * tw + fst p < snd p * tw + tw" using x by simp
    also have "\<dots> = (snd p + 1) * tw" by simp
    also have "\<dots> \<le> th * tw" using y by (intro mult_le_mono1) simp
    finally show ?thesis by (simp add: mult.commute)
  qed
  then have "snd p * tw + fst p < length data div 4" using assms(1) by simp
  from alpha_le_maxAlpha [OF this] show ?thesis by (simp add: alphaAt_def mult.commute)
qed

lemma anchorOfData_unfold:
  "anchorOfData cw ch th data =
     (if maxAlpha data = 0 then None
      else case (case centroid th data (thresh (maxAlpha data)) of
                   Some c \<Rightarrow> Some c
                 | None \<Rightarrow> centroid th data 1) of
             None \<Rightarrow> None
           | Some c \<Rightarrow> Some (toCanvas cw ch th c))"
  by (simp add: anchorOfData_def Let_def toCanvas_def split: option.split)

lemma centroid_one:
  "centroid th data (Suc 0) =
     (if cleared th data (Suc 0) = [] then None
      else Some (weightedCentroid data (cleared th data (Suc 0))))"
  using centroid_eq [of 1 th data] by simp

lemma cleared_maxAlpha_pos:
  assumes "length data = 4 * tw * th" "cleared th data m \<noteq> []" "1 \<le> m"
  shows "maxAlpha data \<noteq> 0"
proof -
  from assms(2) obtain p where p: "p \<in> set (sampleGrid th)" "m \<le> alphaAt data p"
    by (auto simp add: cleared_empty_iff not_less)
  from sampled_le_maxAlpha [OF assms(1) p(1)] p(2) assms(3) show ?thesis by simp
qed

lemma anchorOfData_primary:
  assumes "length data = 4 * tw * th"
    "cleared th data (thresh (maxAlpha data)) \<noteq> []"
  shows "anchorOfData cw ch th data =
           Some (toCanvas cw ch th (weightedCentroid data
             (cleared th data (thresh (maxAlpha data)))))"
proof -
  let ?t = "thresh (maxAlpha data)"
  have t: "1 \<le> ?t" by (simp add: thresh_def)
  have "maxAlpha data \<noteq> 0" using cleared_maxAlpha_pos [OF assms(1) assms(2) t] .
  then show ?thesis
    using assms(2) by (simp add: anchorOfData_unfold centroid_eq [OF t])
qed

lemma anchorOfData_fallback:
  assumes "length data = 4 * tw * th"
    "cleared th data (thresh (maxAlpha data)) = []"
    "cleared th data 1 \<noteq> []"
  shows "anchorOfData cw ch th data =
           Some (toCanvas cw ch th (weightedCentroid data (cleared th data 1)))"
proof -
  let ?t = "thresh (maxAlpha data)"
  have t: "1 \<le> ?t" by (simp add: thresh_def)
  have "maxAlpha data \<noteq> 0" using cleared_maxAlpha_pos [OF assms(1) assms(3)] by simp
  then show ?thesis
    using assms(2,3) by (simp add: anchorOfData_unfold centroid_eq [OF t] centroid_one)
qed

lemma anchorOfData_None_iff:
  assumes "length data = 4 * tw * th"
  shows "anchorOfData cw ch th data = None
         \<longleftrightarrow> (\<forall>p\<in>set (sampleGrid th). alphaAt data p = 0)"
proof
  let ?t = "thresh (maxAlpha data)"
  have t: "1 \<le> ?t" by (simp add: thresh_def)
  assume none: "anchorOfData cw ch th data = None"
  show "\<forall>p\<in>set (sampleGrid th). alphaAt data p = 0"
  proof (cases "maxAlpha data = 0")
    case True
    then show ?thesis using sampled_le_maxAlpha [OF assms] by fastforce
  next
    case False
    have "cleared th data 1 = []"
    proof (rule ccontr)
      assume ne: "cleared th data 1 \<noteq> []"
      show False
      proof (cases "cleared th data ?t = []")
        case True
        from anchorOfData_fallback [OF assms True ne, of cw ch] none show False by simp
      next
        case False
        from anchorOfData_primary [OF assms False, of cw ch] none show False by simp
      qed
    qed
    then show ?thesis by (auto simp add: cleared_empty_iff)
  qed
next
  let ?t = "thresh (maxAlpha data)"
  have t: "1 \<le> ?t" by (simp add: thresh_def)
  assume zero: "\<forall>p\<in>set (sampleGrid th). alphaAt data p = 0"
  then have "cleared th data 1 = []" by (simp add: cleared_empty_iff)
  moreover from zero t have "cleared th data ?t = []"
    unfolding cleared_empty_iff by (metis less_le_trans zero_less_one)
  ultimately show "anchorOfData cw ch th data = None"
    by (simp add: anchorOfData_unfold centroid_eq [OF t] centroid_one)
qed

lemma heatmapAnchor_loaded:
  assumes "cache ident = None" "hmCtx E"
    "find (\<lambda>e. entry_id e = ident) (heatmapEntries E) = Some entry"
    "entry_img entry = Some srcImg" "imageData srcImg = Some data"
  shows "fst (heatmapAnchor E cache ident) =
           anchorOfData (canvasElWidth E) (canvasElHeight E) (heatmapRows srcImg) data"
  using assms by (simp add: heatmapAnchor_def split: option.split)

lemma metricAnchor_fst:
  "fst (metricAnchor E F cache ident) =
     (case fst (heatmapAnchor E cache ident) of
        Some hm \<Rightarrow> hm
      | None \<Rightarrow> fallbackAnchor F ident)"
  by (simp add: metricAnchor_def split: prod.split option.split)

lemma sample_index:
  assumes "p \<in> set (sampleGrid th)"
  shows "\<exists>k<tw * th. alphaAt data p = data ! (4 * k + 3)"
proof -
  from assms have x: "fst p < tw" and y: "snd p < th" by (simp_all add: in_sampleGrid)
  have "snd p * tw + fst p < snd p * tw + tw" using x by simp
  also have "\<dots> = (snd p + 1) * tw" by simp
  also have "\<dots> \<le> th * tw" using y by (intro mult_le_mono1) simp
  finally have "snd p * tw + fst p < tw * th" by (simp add: mult.commute)
  moreover have "alphaAt data p = data ! (4 * (snd p * tw + fst p) + 3)"
    by (simp add: alphaAt_def mult.commute)
  ultimately show ?thesis by blast
qed

lemma heatmapRows_demo:
  "heatmapRows \<lparr> img_width = 320, img_height = 2, imageData = Some data \<rparr> = 1"
  by (simp add: heatmapRows_def Math_round_def)

lemma length_stripe: "length (stripe a b c) = 640"
  by (simp add: stripe_def)

lemma cleared_stripe_primary:
  "cleared 1 (stripe 200 120 30) (thresh (maxAlpha (stripe 200 120 30))) = [(10, 0)]"
  by code_simp

lemma cleared_stripe_fallback:
  "cleared 1 (stripe 90 200 30) (thresh (maxAlpha (stripe 90 200 30))) = []
   \<and> cleared 1 (stripe 90 200 30) 1 = [(10, 0), (12, 0)]"
  by code_simp

lemma cleared_stripe_odd:
  "cleared 1 (stripe 0 200 0) 1 = []"
  by code_simp

text \<open>
  C8, amended. For a heatmap that is loaded and not yet cached, whose downsampled data
  has \<open>4 * tw * th\<close> bytes: the loops of \<open>centroid\<close> visit every second pixel of every
  second row. If one of the visited pixels has an alpha of at least
  \<open>max 40 (round (0.55 * maxAlpha))\<close>, the anchor is the alpha-weighted centroid of the
  visited pixels that reach this threshold, scaled to the canvas and clamped to it. If
  none reaches it but some visited pixel has a nonzero alpha, the anchor is the weighted
  centroid of the visited pixels with nonzero alpha. No anchor is returned exactly when
  every visited pixel has alpha \<open>0\<close>; this is so in particular when every alpha of the
  image is \<open>0\<close>, and \<open>metricAnchor\<close> then uses the fixed-landmark fallback.
\<close>

theorem heatmap_anchor_centroid:
  assumes "cache ident = None" "hmCtx E"
    "find (\<lambda>e. entry_id e = ident) (heatmapEntries E) = Some entry"
    "entry_img entry = Some srcImg" "imageData srcImg = Some data"
    "length data = 4 * tw * heatmapRows srcImg"
  shows "(cleared (heatmapRows srcImg) data (thresh (maxAlpha data)) \<noteq> [] \<longrightarrow>
            fst (heatmapAnchor E cache ident) =
              Some (toCanvas (canvasElWidth E) (canvasElHeight E) (heatmapRows srcImg)
                     (weightedCentroid data
                        (cleared (heatmapRows srcImg) data (thresh (maxAlpha data))))))
         \<and> (cleared (heatmapRows srcImg) data (thresh (maxAlpha data)) = []
              \<and> cleared (heatmapRows srcImg) data 1 \<noteq> [] \<longrightarrow>
            fst (heatmapAnchor E cache ident) =
              Some (toCanvas (canvasElWidth E) (canvasElHeight E) (heatmapRows srcImg)
                     (weightedCentroid data (cleared (heatmapRows srcImg) data 1))))
         \<and> (fst (heatmapAnchor E cache ident) = None
              \<longleftrightarrow> (\<forall>p\<in>set (sampleGrid (heatmapRows srcImg)). alphaAt data p = 0))
         \<and> ((\<forall>k<tw * heatmapRows srcImg. data ! (4 * k + 3) = 0) \<longrightarrow>
              fst (heatmapAnchor E cache ident) = None
              \<and> fst (metricAnchor E F cache ident) = fallbackAnchor F ident)"
proof -
  let ?th = "heatmapRows srcImg"
  have eq: "fst (heatmapAnchor E cache ident)
              = anchorOfData (canvasElWidth E) (canvasElHeight E) ?th data"
    using assms(1-5) by (rule heatmapAnchor_loaded)
  have none: "fst (heatmapAnchor E cache ident) = None
                \<longleftrightarrow> (\<forall>p\<in>set (sampleGrid ?th). alphaAt data p = 0)"
    unfolding eq using anchorOfData_None_iff [OF assms(6)] .
  have zero: "fst (heatmapAnchor E cache ident) = None
              \<and> fst (metricAnchor E F cache ident) = fallbackAnchor F ident"
    if all: "\<forall>k<tw * ?th. data ! (4 * k + 3) = 0"
  proof -
    have "\<forall>p\<in>set (sampleGrid ?th). alphaAt data p = 0"
    proof
      fix p assume "p \<in> set (sampleGrid ?th)"
      from sample_index [OF this, of data] all show "alphaAt data p = 0" by auto
    qed
    with none have "fst (heatmapAnchor E cache ident) = None" by simp
    then show ?thesis by (simp add: metricAnchor_fst)
  qed
  show ?thesis
    using anchorOfData_primary [OF assms(6)] anchorOfData_fallback [OF assms(6)] none zero
    unfolding eq by blast
qed

theorem heatmap_anchor_centroid_witness:
  "length (stripe 200 120 30)
     = 4 * tw * heatmapRows \<lparr> img_width = 320, img_height = 2,
                               imageData = Some (stripe 200 120 30) \<rparr>
   \<and> fst (heatmapAnchor (heatCtxOf (stripe 200 120 30)) Map.empty ''redness'')
       = Some \<lparr> px = 39.375, py = 200 \<rparr>
   \<and> fst (heatmapAnchor (heatCtxOf (stripe 90 200 30)) Map.empty ''redness'')
       = Some \<lparr> px = 41.25, py = 200 \<rparr>
   \<and> fst (heatmapAnchor (heatCtxOf (replicate 640 0)) Map.empty ''redness'') = None
   \<and> fst (metricAnchor (heatCtxOf (replicate 640 0)) demoPoints Map.empty ''redness'')
       = \<lparr> px = 300, py = 230 \<rparr>"
proof -
  have a1: "alphaAt (stripe 200 120 30) (10, 0) = 200"
    and a2: "alphaAt (stripe 90 200 30) (10, 0) = 90"
    and a3: "alphaAt (stripe 90 200 30) (12, 0) = 30"
    by (simp_all add: alphaAt_def stripe_def)
  show ?thesis
    using heatmap_anchor_centroid
            [of Map.empty "''redness''" "heatCtxOf (stripe 200 120 30)"
                "\<lparr> entry_id = ''redness'',
                   entry_img = Some \<lparr> img_width = 320, img_height = 2,
                                      imageData = Some (stripe 200 120 30) \<rparr> \<rparr>"
                "\<lparr> img_width = 320, img_height = 2, imageData = Some (stripe 200 120 30) \<rparr>"
                "stripe 200 120 30" demoPoints]
          heatmap_anchor_centroid
            [of Map.empty "''redness''" "heatCtxOf (stripe 90 200 30)"
                "\<lparr> entry_id = ''redness'',
                   entry_img = Some \<lparr> img_width = 320, img_height = 2,
                                      imageData = Some (stripe 90 200 30) \<rparr> \<rparr>"
                "\<lparr> img_width = 320, img_height = 2, imageData = Some (stripe 90 200 30) \<rparr>"
                "stripe 90 200 30" demoPoints]
          heatmap_anchor_centroid
            [of Map.empty "''redness''" "heatCtxOf (replicate 640 0)"
                "\<lparr> entry_id = ''redness'',
                   entry_img = Some \<lparr> img_width = 320, img_height = 2,
                                      imageData = Some (replicate 640 0) \<rparr> \<rparr>"
                "\<lparr> img_width = 320, img_height = 2, imageData = Some (replicate 640 0) \<rparr>"
                "replicate 640 0" demoPoints]
          cleared_stripe_primary cleared_stripe_fallback a1 a2 a3
    by (simp add: heatCtxOf_def heatmapRows_demo length_stripe toCanvas_def
          weightedCentroid_def fallbackAnchor_def avg2_def demoPoints_def)
qed

text \<open>
  C8, as stated: no anchor is returned only when every alpha of the image is zero. In a
  160 by 1 image whose single visible pixel is pixel 11, with alpha 200 (byte 47), the
  maximum alpha is positive, but pixel 11 has an odd column and the loops of
  \<open>centroid\<close> never visit it: both centroids are empty, no anchor is returned and the
  fallback anchor is used.
\<close>

theorem heatmap_anchor_misses_unsampled_pixels:
  "stripe 0 200 0 ! 47 = 200
   \<and> fst (heatmapAnchor (heatCtxOf (stripe 0 200 0)) Map.empty ''redness'') = None
   \<and> fst (metricAnchor (heatCtxOf (stripe 0 200 0)) demoPoints Map.empty ''redness'')
       = fallbackAnchor demoPoints ''redness''"
proof -
  have byte: "stripe 0 200 0 ! 47 = 200" by (simp add: stripe_def)
  have "\<forall>p\<in>set (sampleGrid 1). alphaAt (stripe 0 200 0) p = 0"
    using cleared_stripe_odd by (simp add: cleared_empty_iff)
  then have "anchorOfData 600 400 1 (stripe 0 200 0) = None"
    using anchorOfData_None_iff [of "stripe 0 200 0" 1 600 400] by (simp add: length_stripe)
  then have "fst (heatmapAnchor (heatCtxOf (stripe 0 200 0)) Map.empty ''redness'') = None"
    by (simp add: heatmapAnchor_def heatCtxOf_def heatmapRows_demo)
  then show ?thesis using byte by (simp add: metricAnchor_fst)
qed

section \<open>Callout layout\<close>

lemma placeOne_le_lowest: "box_y (placeOne L side lastY c) \<le> lowest L"
  by (simp add: placeOne_def Let_def split: option.split)

lemma placeOne_pushed:
  "box_y (placeOne L side (Some l) c) \<ge> l + boxH + gap
   \<or> box_y (placeOne L side (Some l) c) = lowest L"
  by (auto simp add: placeOne_def Let_def)

lemma placeFrom_le_lowest:
  "b \<in> set (placeFrom L side lastY cs) \<Longrightarrow> box_y b \<le> lowest L"
  by (induction cs arbitrary: lastY) (auto simp add: Let_def placeOne_le_lowest)

text \<open>
  Every box placed after a box at \<open>l\<close> is a full box and gap below \<open>l\<close>, or sits on the
  bottom bound.
\<close>

lemma placeFrom_after:
  "b \<in> set (placeFrom L side (Some l) cs) \<Longrightarrow>
   box_y b \<ge> l + boxH + gap \<or> box_y b = lowest L"
proof (induction cs arbitrary: l)
  case Nil
  then show ?case by simp
next
  case (Cons c cs)
  let ?b0 = "placeOne L side (Some l) c"
  from Cons.prems have "b = ?b0 \<or> b \<in> set (placeFrom L side (Some (box_y ?b0)) cs)"
    by (simp add: Let_def)
  then show ?case
  proof
    assume "b = ?b0"
    then show ?thesis using placeOne_pushed [of l L side c] by simp
  next
    assume rest: "b \<in> set (placeFrom L side (Some (box_y ?b0)) cs)"
    from Cons.IH [OF rest]
    have ih: "box_y b \<ge> box_y ?b0 + boxH + gap \<or> box_y b = lowest L" .
    have le: "box_y b \<le> lowest L" using placeFrom_le_lowest [OF rest] .
    from placeOne_pushed [of l L side c] ih le show ?thesis by auto
  qed
qed

lemma placeFrom_spaced:
  "sorted_wrt (\<lambda>a b. box_y a + boxH + gap \<le> box_y b \<or> box_y b = lowest L)
     (placeFrom L side lastY cs)"
proof (induction cs arbitrary: lastY)
  case Nil
  then show ?case by simp
next
  case (Cons c cs)
  show ?case using Cons.IH placeFrom_after [of _ L side "box_y (placeOne L side lastY c)" cs]
    by (auto simp add: Let_def)
qed

lemma length_placeFrom: "length (placeFrom L side lastY cs) = length cs"
  by (induction cs arbitrary: lastY) (simp_all add: Let_def)

lemma length_layoutColumn: "length (layoutColumn L side items) = length items"
  by (simp add: layoutColumn_def placeColumn_def sortByAnchorY_def length_placeFrom)

lemma layoutColumn_spaced:
  "sorted_wrt (\<lambda>a b. box_y a + boxH + gap \<le> box_y b \<or> box_y b = lowest L)
     (layoutColumn L side items)"
  unfolding layoutColumn_def placeColumn_def by (rule placeFrom_spaced)

lemma demo_layout:
  "layoutColumn demoCtx SideLeft
     [calloutAt ''redness: 40'' 100, calloutAt ''texture: 55'' 110, calloutAt ''oiliness: 70'' 50]
   = [\<lparr> box_x = 46, box_y = 36, box_w = 140 \<rparr>,
      \<lparr> box_x = 46, box_y = 86, box_w = 140 \<rparr>,
      \<lparr> box_x = 46, box_y = 122, box_w = 140 \<rparr>]"
  by (simp add: layoutColumn_def placeColumn_def sortByAnchorY_def calloutAt_def demoCtx_def
        placeOne_def lowest_def maxBoxW_def colOffset_def Let_def)

text \<open>
  C1, as stated: the placed boxes of a column never overlap, also near the bottom edge.
  On a canvas 400 pixels high, two callouts anchored at \<open>y = 380\<close> and \<open>y = 390\<close> are both
  placed at \<open>by = 362\<close>, the bottom bound: the second is pushed to \<open>398\<close> and the final
  clamp brings it back onto the first.
\<close>

theorem callouts_overlap_at_bottom:
  "map box_y (layoutColumn demoCtx SideLeft
       [calloutAt ''redness: 40'' 380, calloutAt ''texture: 55'' 390]) = [362, 362]
   \<and> overlaps
       (layoutColumn demoCtx SideLeft
          [calloutAt ''redness: 40'' 380, calloutAt ''texture: 55'' 390] ! 0)
       (layoutColumn demoCtx SideLeft
          [calloutAt ''redness: 40'' 380, calloutAt ''texture: 55'' 390] ! 1)"
  by (simp add: layoutColumn_def placeColumn_def sortByAnchorY_def calloutAt_def demoCtx_def
        placeOne_def lowest_def maxBoxW_def colOffset_def Let_def overlaps_def)

lemma demo_layout_far:
  "layoutColumn demoCtx SideLeft [calloutAt ''redness: 40'' 390, calloutAt ''texture: 55'' 100]
   = [\<lparr> box_x = 46, box_y = 86, box_w = 140 \<rparr>,
      \<lparr> box_x = 46, box_y = 362, box_w = 140 \<rparr>]"
  by (simp add: layoutColumn_def placeColumn_def sortByAnchorY_def calloutAt_def demoCtx_def
        placeOne_def lowest_def maxBoxW_def colOffset_def Let_def)

text \<open>
  C1, amended: in a column laid out by sorting on the anchor's \<open>y\<close> and placing greedily,
  no box lies below the bottom bound \<open>canvasHeight - boxH - margin\<close>. Of any two placed
  boxes, whenever the earlier one leaves room for a box and the 8 pixel gap above the
  bottom bound (\<open>by + boxH + gap \<le> canvasHeight - boxH - margin\<close>), the later one lies at
  least \<open>boxH + gap\<close> below it, so that their vertical intervals \<open>[by, by + boxH]\<close> are
  disjoint; when the earlier box leaves no such room, the later box is clamped to the
  bottom bound.
\<close>

theorem callouts_disjoint_with_room:
  assumes "i < j" "j < length items"
  shows "(box_y (layoutColumn L side items ! i) + boxH + gap \<le> lowest L \<longrightarrow>
            box_y (layoutColumn L side items ! i) + boxH + gap
              \<le> box_y (layoutColumn L side items ! j)
            \<and> \<not> overlaps (layoutColumn L side items ! i) (layoutColumn L side items ! j))
         \<and> (lowest L < box_y (layoutColumn L side items ! i) + boxH + gap \<longrightarrow>
              box_y (layoutColumn L side items ! j) = lowest L)
         \<and> box_y (layoutColumn L side items ! i) \<le> lowest L
         \<and> box_y (layoutColumn L side items ! j) \<le> lowest L"
proof -
  let ?bs = "layoutColumn L side items"
  have j: "j < length ?bs" using assms(2) by (simp add: length_layoutColumn)
  have i: "i < length ?bs" using assms(1) j by simp
  have step: "box_y (?bs ! i) + boxH + gap \<le> box_y (?bs ! j) \<or> box_y (?bs ! j) = lowest L"
    using layoutColumn_spaced [of L side items] assms(1) j
    by (simp add: sorted_wrt_iff_nth_less)
  have "?bs ! j \<in> set ?bs" using j by simp
  then have lej: "box_y (?bs ! j) \<le> lowest L"
    unfolding layoutColumn_def placeColumn_def by (rule placeFrom_le_lowest)
  have "?bs ! i \<in> set ?bs" using i by simp
  then have lei: "box_y (?bs ! i) \<le> lowest L"
    unfolding layoutColumn_def placeColumn_def by (rule placeFrom_le_lowest)
  show ?thesis using step lei lej by (auto simp add: overlaps_def)
qed

theorem callouts_disjoint_with_room_witness:
  "(0::nat) < 1
   \<and> 1 < length [calloutAt ''redness: 40'' 390, calloutAt ''texture: 55'' 100]
   \<and> map box_y (layoutColumn demoCtx SideLeft
        [calloutAt ''redness: 40'' 390, calloutAt ''texture: 55'' 100]) = [86, 362]
   \<and> lowest demoCtx = 362
   \<and> \<not> overlaps \<lparr> box_x = 46, box_y = 86, box_w = 140 \<rparr>
                  \<lparr> box_x = 46, box_y = 362, box_w = 140 \<rparr>
   \<and> \<not> overlaps \<lparr> box_x = 46, box_y = 36, box_w = 140 \<rparr>
                  \<lparr> box_x = 46, box_y = 122, box_w = 140 \<rparr>"
  using callouts_disjoint_with_room
          [of 0 1 "[calloutAt ''redness: 40'' 390, calloutAt ''texture: 55'' 100]"
              demoCtx SideLeft]
        callouts_disjoint_with_room
          [of 0 2 "[calloutAt ''redness: 40'' 100, calloutAt ''texture: 55'' 110,
                    calloutAt ''oiliness: 70'' 50]" demoCtx SideLeft]
  by (simp add: demo_layout demo_layout_far) (simp add: lowest_def demoCtx_def)

end
